theory Spec2Isabelle
  imports Main "HOL-Library.Multiset"
begin

section \<open>The results list controller of the SARIF viewer\<close>

text \<open>
  A shallow embedding of \<^verbatim>\<open>src/ResultsListController.ts\<close>. The controller's private
  fields are the record \<open>controller\<close>; every method takes the controller and returns the
  controller it leaves behind, the calls it made on its collaborators (\<open>effect\<close>) and the
  exception it threw, if any. A JavaScript string is a \<open>string\<close> of code units below
  256, a JavaScript number that the code uses as an index, a line or an identifier is an
  \<open>int\<close>, and \<^verbatim>\<open>undefined\<close> is \<open>None\<close>.
\<close>

subsection \<open>Values of the host language\<close>

datatype error = SyntaxError | TypeError

text \<open>The result of a subtraction: \<^verbatim>\<open>undefined - 1\<close> is \<^verbatim>\<open>NaN\<close>.\<close>

datatype number = Finite int | NaN

text \<open>Keys of the groups, labels of the groups: a string, a number or \<^verbatim>\<open>undefined\<close>.\<close>

datatype jsval = Undefined | Str string | Num int

text \<open>\<^verbatim>\<open>Number.prototype.toString\<close> on an integer: its decimal digits.\<close>

fun digits :: "nat \<Rightarrow> string" where
  "digits n =
     (if n < 10 then [char_of (48 + n)] else digits (n div 10) @ [char_of (48 + n mod 10)])"

declare digits.simps [simp del]

definition NumberToString :: "int \<Rightarrow> string" where
  "NumberToString i = (if i < 0 then CHR ''-'' # digits (nat (- i)) else digits (nat i))"

text \<open>\<^verbatim>\<open>ToString\<close>, as a template literal and \<^verbatim>\<open>RegExp.prototype.test\<close> apply it.\<close>

fun ToString :: "jsval \<Rightarrow> string" where
  "ToString Undefined = ''undefined''"
| "ToString (Str s) = s"
| "ToString (Num i) = NumberToString i"

definition StrOpt :: "string option \<Rightarrow> jsval" where
  "StrOpt v = (case v of None \<Rightarrow> Undefined | Some s \<Rightarrow> Str s)"

text \<open>
  \<^verbatim>\<open>String.prototype.trim\<close>: the white space and line terminators among the code units
  below 256 are tab, line feed, vertical tab, form feed, carriage return, space and the
  no-break space.
\<close>

definition isWhiteSpace :: "char \<Rightarrow> bool" where
  "isWhiteSpace c = (of_char c \<in> {9, 10, 11, 12, 13, 32, 160 :: nat})"

definition trim :: "string \<Rightarrow> string" where
  "trim s = rev (dropWhile isWhiteSpace (rev (dropWhile isWhiteSpace s)))"

text \<open>
  \<^verbatim>\<open>Array.prototype.indexOf\<close> (the first index, or -1) and the two calls of
  \<^verbatim>\<open>Array.prototype.splice\<close> the source makes: \<^verbatim>\<open>splice(index)\<close>, with no delete count,
  removes every element from \<open>index\<close> to the end; \<^verbatim>\<open>splice(index, 1)\<close> removes one.
\<close>

fun indexOf :: "'a list \<Rightarrow> 'a \<Rightarrow> int" where
  "indexOf [] x = - 1"
| "indexOf (y # ys) x =
     (if y = x then 0 else (let i = indexOf ys x in if i = - 1 then - 1 else i + 1))"

definition splice :: "int \<Rightarrow> 'a list \<Rightarrow> 'a list" where
  "splice index xs = take (nat index) xs"

definition splice1 :: "int \<Rightarrow> 'a list \<Rightarrow> 'a list" where
  "splice1 index xs = take (nat index) xs @ drop (Suc (nat index)) xs"

text \<open>
  A \<^verbatim>\<open>Map\<close> keeps its entries in insertion order; \<^verbatim>\<open>set\<close> on a key it holds replaces
  the value where it stands.
\<close>

type_synonym ('k, 'v) Map = "('k \<times> 'v) list"

fun Map_set :: "'k \<Rightarrow> 'v \<Rightarrow> ('k, 'v) Map \<Rightarrow> ('k, 'v) Map" where
  "Map_set k v [] = [(k, v)]"
| "Map_set k v (p # ps) = (if fst p = k then (k, v) # ps else p # Map_set k v ps)"

definition Map_delete :: "'k \<Rightarrow> ('k, 'v) Map \<Rightarrow> ('k, 'v) Map" where
  "Map_delete k m = filter (\<lambda>p. fst p \<noteq> k) m"

definition Map_get :: "('k, 'v) Map \<Rightarrow> 'k \<Rightarrow> 'v option" where
  "Map_get m k = map_of m k"

definition Map_has :: "('k, 'v) Map \<Rightarrow> 'k \<Rightarrow> bool" where
  "Map_has m k = (k \<in> fst ` set m)"

definition Map_size :: "('k, 'v) Map \<Rightarrow> nat" where
  "Map_size m = length m"

definition Map_keys :: "('k, 'v) Map \<Rightarrow> 'k list" where
  "Map_keys m = map fst m"

subsection \<open>The interfaces of the controller\<close>

record Position =
  line :: int
  character :: int

text \<open>
  The cells of a row. A cell of text is \<^verbatim>\<open>{ value, tooltip? }\<close>; the run and result
  identifiers are \<^verbatim>\<open>{ value: number }\<close>; the severity carries its rank and the start
  position its \<^verbatim>\<open>Position\<close>.
\<close>

record ResultsListValue =
  val :: "string option"
  tooltip :: "string option"

datatype level = Level_error | Level_warning | Level_open | Level_pass
  | Level_notApplicable | Level_note

record ResultsListSeverityValue =
  severityLevelOrder :: "int option"
  sev_val :: "level option"

record ResultsListPositionValue =
  pos :: Position
  pos_val :: string

record ResultsListRow =
  message :: ResultsListValue
  resultId :: int
  ruleId :: ResultsListValue
  ruleName :: ResultsListValue
  runId :: int
  sarifFile :: ResultsListValue
  severityLevel :: ResultsListSeverityValue
  resultFile :: ResultsListValue
  resultStartPos :: ResultsListPositionValue

record Location =
  fileName :: string
  fsPath :: string
  range_start :: Position

record ResultInfo =
  info_message :: "string option"
  info_id :: int
  info_ruleId :: "string option"
  info_ruleName :: "string option"
  info_runId :: int
  info_severityLevel :: "level option"
  info_locations :: "Location list"
  assignedLocation :: "Location option"

record SarifViewerDiagnostic =
  resultInfo :: ResultInfo

record RunInfo =
  sarifFileName :: string
  sarifFileFullPath :: string

record ResultsListColumn =
  description :: string
  hide :: bool
  title :: string

text \<open>
  The sort setting is an object of the settings source; \<open>ref\<close> is its identity, which
  \<^verbatim>\<open>!==\<close> compares. A setting with no \<^verbatim>\<open>column\<close> has \<open>column = None\<close>.
\<close>

record ResultsListSortBy =
  ref :: nat
  column :: "string option"
  ascending :: bool

record ResultsListGroup =
  rows :: "ResultsListRow list"
  group_text :: jsval
  group_tooltip :: "string option"

record ResultsListData =
  data_columns :: "(string \<times> ResultsListColumn) list"
  data_filterCaseMatch :: bool
  data_filterText :: string
  data_groupBy :: string
  groups :: "ResultsListGroup list"
  resultCount :: nat
  data_sortBy :: "ResultsListSortBy option"

text \<open>The private fields of \<^verbatim>\<open>ResultsListController\<close>.\<close>

record controller =
  columns :: "(string \<times> ResultsListColumn) list"
  groupBy :: string
  sortBy :: "ResultsListSortBy option"
  resultsListRows :: "(string, ResultsListRow) Map"
  filterCaseMatch :: bool
  filterText :: string
  postFilterListRows :: "string list"

text \<open>
  What the controller calls and this file does not hold: the host's \<^verbatim>\<open>RegExp\<close>
  constructor (pattern and flags, each possibly \<^verbatim>\<open>undefined\<close>; it throws on a pattern
  it cannot compile, and the regular expression it returns is read through
  \<^verbatim>\<open>test\<close>), \<^verbatim>\<open>String.prototype.localeCompare\<close>, the ranks of
  \<^verbatim>\<open>SeverityLevelOrder\<close>, and the diagnostic collection's \<^verbatim>\<open>getRunInfo\<close> and
  \<^verbatim>\<open>getResultInfo\<close>, which answer \<^verbatim>\<open>undefined\<close> for an identifier they do not know.
\<close>

type_synonym RegExp = "string \<Rightarrow> bool"

record host =
  RegExp_new :: "string option \<Rightarrow> string option \<Rightarrow> error + RegExp"
  localeCompare :: "string \<Rightarrow> string \<Rightarrow> int"
  SeverityLevelOrder :: "level \<Rightarrow> int"
  getRunInfo :: "int \<Rightarrow> RunInfo option"
  getResultInfo :: "int \<Rightarrow> int \<Rightarrow> SarifViewerDiagnostic option"

text \<open>The three values of the settings source, as one read of it gives them.\<close>

record settings =
  resultsListHideColumns :: "string list"
  resultsListGroupBy :: string
  resultsListSortBy :: "ResultsListSortBy option"

text \<open>The messages of the web view, by \<^verbatim>\<open>MessageType\<close>, each with its \<^verbatim>\<open>data\<close>.
  The data of a selection is what \<^verbatim>\<open>JSON.parse\<close> makes of it: the exception it throws,
  or the \<^verbatim>\<open>resultId\<close> and \<^verbatim>\<open>runId\<close> of the object.\<close>

datatype WebviewMessage =
    ResultsListColumnToggled string
  | ResultsListFilterApplied string
  | ResultsListFilterCaseToggled
  | ResultsListGroupChanged string
  | ResultsListResultSelected "error + int \<times> int"
  | ResultsListSortChanged string

text \<open>The calls the controller makes on its collaborators.\<close>

datatype effect =
    setResultsListData ResultsListData
  | update_HideColumns "string list"
  | update_GroupBy string
  | update_SortBy ResultsListSortBy
  | openTextDocument Location

text \<open>What a method leaves: the controller, the calls made, the exception thrown.\<close>

record outcome =
  after :: controller
  effects :: "effect list"
  thrown :: "error option"

subsection \<open>Rows\<close>

text \<open>The string constants of \<^verbatim>\<open>sarif.Result.level\<close>: the level names of SARIF.\<close>

fun level_name :: "level \<Rightarrow> string" where
  "level_name Level_error = ''error''"
| "level_name Level_warning = ''warning''"
| "level_name Level_open = ''open''"
| "level_name Level_pass = ''pass''"
| "level_name Level_notApplicable = ''notApplicable''"
| "level_name Level_note = ''note''"

text \<open>
  \<^verbatim>\<open>createResultsListRow\<close>. Reading \<^verbatim>\<open>run.sarifFileName\<close> throws when the collection
  knows no run of that identifier. The \<^verbatim>\<open>switch\<close> leaves \<open>sevOrder\<close> undefined when
  the result has no level.
\<close>

definition createResultsListRow :: "host \<Rightarrow> ResultInfo \<Rightarrow> error + ResultsListRow" where
  "createResultsListRow h ri =
     (case getRunInfo h (info_runId ri) of
        None \<Rightarrow> Inl TypeError
      | Some run \<Rightarrow>
          let sevOrder = map_option (SeverityLevelOrder h) (info_severityLevel ri)
          in Inr \<lparr>
            message = \<lparr>val = info_message ri, tooltip = None\<rparr>,
            resultId = info_id ri,
            ruleId = \<lparr>val = info_ruleId ri, tooltip = None\<rparr>,
            ruleName = \<lparr>val = info_ruleName ri, tooltip = None\<rparr>,
            runId = info_runId ri,
            sarifFile = \<lparr>val = Some (sarifFileName run), tooltip = Some (sarifFileFullPath run)\<rparr>,
            severityLevel = \<lparr>severityLevelOrder = sevOrder, sev_val = info_severityLevel ri\<rparr>,
            resultFile =
              (case info_locations ri of
                 [] \<Rightarrow> \<lparr>val = Some ''No Location'', tooltip = None\<rparr>
               | l # _ \<Rightarrow> \<lparr>val = Some (fileName l), tooltip = Some (fsPath l)\<rparr>),
            resultStartPos =
              (case info_locations ri of
                 [] \<Rightarrow> \<lparr>pos = \<lparr>line = 0, character = 0\<rparr>, pos_val = ''(0, 0)''\<rparr>
               | l # _ \<Rightarrow>
                   \<lparr>pos = range_start l,
                    pos_val = ''('' @ NumberToString (line (range_start l) + 1) @ '', '' @
                      NumberToString (character (range_start l) + 1) @ '')''\<rparr>)\<rparr>)"

text \<open>The key of a row in the row store: \<^verbatim>\<open>`${runId}_${id}`\<close>.\<close>

definition rowId :: "int \<Rightarrow> int \<Rightarrow> string" where
  "rowId run_id result_id = NumberToString run_id @ ''_'' @ NumberToString result_id"

text \<open>
  \<^verbatim>\<open>row[name]\<close>: one of the nine cells, a property every object inherits from
  \<^verbatim>\<open>Object.prototype\<close> (which has no \<^verbatim>\<open>value\<close>, \<^verbatim>\<open>tooltip\<close>, \<^verbatim>\<open>pos\<close> or
  \<^verbatim>\<open>isSeverity\<close>), or \<^verbatim>\<open>undefined\<close>.
\<close>

datatype field =
    F_text "ResultsListRow \<Rightarrow> ResultsListValue"
  | F_number "ResultsListRow \<Rightarrow> int"
  | F_severity
  | F_position
  | F_inherited

definition Object_prototype :: "string list" where
  "Object_prototype =
     [''constructor'', ''__defineGetter__'', ''__defineSetter__'', ''hasOwnProperty'',
      ''__lookupGetter__'', ''__lookupSetter__'', ''isPrototypeOf'', ''propertyIsEnumerable'',
      ''toString'', ''valueOf'', ''__proto__'', ''toLocaleString'']"

definition field_of :: "string \<Rightarrow> field option" where
  "field_of name =
     (if name = ''message'' then Some (F_text message)
      else if name = ''resultId'' then Some (F_number resultId)
      else if name = ''ruleId'' then Some (F_text ruleId)
      else if name = ''ruleName'' then Some (F_text ruleName)
      else if name = ''runId'' then Some (F_number runId)
      else if name = ''sarifFile'' then Some (F_text sarifFile)
      else if name = ''severityLevel'' then Some F_severity
      else if name = ''resultFile'' then Some (F_text resultFile)
      else if name = ''resultStartPos'' then Some F_position
      else if name \<in> set Object_prototype then Some F_inherited
      else None)"

text \<open>The \<^verbatim>\<open>value\<close> and the \<^verbatim>\<open>tooltip\<close> of \<^verbatim>\<open>row[name]\<close>.\<close>

fun field_value :: "field \<Rightarrow> ResultsListRow \<Rightarrow> jsval" where
  "field_value (F_text f) row = StrOpt (val (f row))"
| "field_value (F_number f) row = Num (f row)"
| "field_value F_severity row = StrOpt (map_option level_name (sev_val (severityLevel row)))"
| "field_value F_position row = Str (pos_val (resultStartPos row))"
| "field_value F_inherited row = Undefined"

fun field_tooltip :: "field \<Rightarrow> ResultsListRow \<Rightarrow> string option" where
  "field_tooltip (F_text f) row = tooltip (f row)"
| "field_tooltip _ row = None"

subsection \<open>The filter\<close>

text \<open>\<^verbatim>\<open>generateFilterRegExp\<close>: flag \<^verbatim>\<open>i\<close> unless the case must match, and no
  pattern at all for the empty filter text.\<close>

definition generateFilterRegExp :: "host \<Rightarrow> controller \<Rightarrow> error + RegExp" where
  "generateFilterRegExp h c =
     (let flags = (if \<not> filterCaseMatch c then Some ''i'' else None);
          pattern = (if filterText c \<noteq> '''' then Some (filterText c) else None)
      in RegExp_new h pattern flags)"

text \<open>\<^verbatim>\<open>applyFilterToRow\<close>; \<^verbatim>\<open>test\<close> turns its argument into a string.\<close>

definition applyFilterToRow :: "ResultsListRow \<Rightarrow> RegExp \<Rightarrow> bool" where
  "applyFilterToRow row regExp =
     (if regExp (ToString (StrOpt (val (message row)))) \<or>
         regExp (ToString (StrOpt (val (ruleId row)))) \<or>
         regExp (ToString (StrOpt (val (ruleName row)))) \<or>
         regExp (ToString (StrOpt (map_option level_name (sev_val (severityLevel row))))) \<or>
         regExp (ToString (StrOpt (val (resultFile row)))) \<or>
         regExp (ToString (StrOpt (val (sarifFile row))))
      then True else False)"

text \<open>\<^verbatim>\<open>updateFilteredRowsList\<close>: the list is emptied before the regular expression
  is made, so an exception of the constructor leaves it empty.\<close>

definition updateFilteredRowsList :: "host \<Rightarrow> controller \<Rightarrow> outcome" where
  "updateFilteredRowsList h c =
     (let c1 = c\<lparr>postFilterListRows := []\<rparr>
      in case generateFilterRegExp h c1 of
           Inl e \<Rightarrow> \<lparr>after = c1, effects = [], thrown = Some e\<rparr>
         | Inr regEx \<Rightarrow>
             \<lparr>after = c1\<lparr>postFilterListRows :=
                  map fst (filter (\<lambda>(key, row). filterText c1 = '''' \<or> applyFilterToRow row regEx = True)
                    (resultsListRows c1))\<rparr>,
              effects = [], thrown = None\<rparr>)"

subsection \<open>Updating the data set\<close>

text \<open>The two loops of \<^verbatim>\<open>updateResultsListData\<close>.\<close>

fun removeRows :: "SarifViewerDiagnostic list \<Rightarrow> controller \<Rightarrow> controller" where
  "removeRows [] c = c"
| "removeRows (d # diags) c =
     (let id' = rowId (info_runId (resultInfo d)) (info_id (resultInfo d));
          c1 = c\<lparr>resultsListRows := Map_delete id' (resultsListRows c)\<rparr>;
          index = indexOf (postFilterListRows c1) id';
          c2 = (if index \<noteq> - 1
                then c1\<lparr>postFilterListRows := splice index (postFilterListRows c1)\<rparr> else c1)
      in removeRows diags c2)"

fun updateRows :: "host \<Rightarrow> RegExp \<Rightarrow> SarifViewerDiagnostic list \<Rightarrow> controller \<Rightarrow> outcome" where
  "updateRows h regEx [] c = \<lparr>after = c, effects = [], thrown = None\<rparr>"
| "updateRows h regEx (d # diags) c =
     (case createResultsListRow h (resultInfo d) of
        Inl e \<Rightarrow> \<lparr>after = c, effects = [], thrown = Some e\<rparr>
      | Inr row \<Rightarrow>
          let id' = rowId (runId row) (resultId row);
              c1 = c\<lparr>resultsListRows := Map_set id' row (resultsListRows c)\<rparr>;
              index = indexOf (postFilterListRows c1) id';
              c2 = (if applyFilterToRow row regEx = True
                    then (if index = - 1
                          then c1\<lparr>postFilterListRows := postFilterListRows c1 @ [id']\<rparr> else c1)
                    else if index \<noteq> - 1
                    then c1\<lparr>postFilterListRows := splice index (postFilterListRows c1)\<rparr>
                    else c1)
          in updateRows h regEx diags c2)"

definition updateResultsListData ::
  "host \<Rightarrow> controller \<Rightarrow> SarifViewerDiagnostic list \<Rightarrow> bool \<Rightarrow> outcome" where
  "updateResultsListData h c diags remove =
     (if remove = True then \<lparr>after = removeRows diags c, effects = [], thrown = None\<rparr>
      else case generateFilterRegExp h c of
             Inl e \<Rightarrow> \<lparr>after = c, effects = [], thrown = Some e\<rparr>
           | Inr regEx \<Rightarrow> updateRows h regEx diags c)"

subsection \<open>The projection\<close>

text \<open>
  \<^verbatim>\<open>Array.prototype.sort\<close> with a comparison function. The host fixes neither
  the comparisons a sort makes nor their order; this is one sort it allows, a stable
  insertion sort. What the properties below take from it holds of every sort of the
  host: the result has the elements of the array, an array of fewer than two elements is
  never compared, an array of two or more is compared at least once, an exception of the
  comparison function leaves the sort, and two comparison functions that answer the same
  on the elements give the same result. A \<^verbatim>\<open>NaN\<close> counts as zero. Where a comparison
  function is not an order, as on an undefined value, the order of the result is the
  model's and nothing is stated of it.
\<close>

fun positive :: "number \<Rightarrow> bool" where
  "positive (Finite i) = (0 < i)"
| "positive NaN = False"

fun insertSorted :: "('a \<Rightarrow> 'a \<Rightarrow> error + number) \<Rightarrow> 'a \<Rightarrow> 'a list \<Rightarrow> error + 'a list" where
  "insertSorted cmp x [] = Inr [x]"
| "insertSorted cmp x (y # ys) =
     (case cmp x y of
        Inl e \<Rightarrow> Inl e
      | Inr compv \<Rightarrow>
          if positive compv
          then (case insertSorted cmp x ys of Inl e \<Rightarrow> Inl e | Inr zs \<Rightarrow> Inr (y # zs))
          else Inr (x # y # ys))"

fun ArraySort :: "('a \<Rightarrow> 'a \<Rightarrow> error + number) \<Rightarrow> 'a list \<Rightarrow> error + 'a list" where
  "ArraySort cmp [] = Inr []"
| "ArraySort cmp (x # xs) =
     (case ArraySort cmp xs of Inl e \<Rightarrow> Inl e | Inr ys \<Rightarrow> insertSorted cmp x ys)"

text \<open>
  The comparison of two rows on one column, after \<open>valueA\<close> and \<open>valueB\<close> were read.
  A cell of text has no \<^verbatim>\<open>pos\<close>, no \<^verbatim>\<open>isSeverity\<close> and no number for a value, so
  it ends in \<^verbatim>\<open>localeCompare\<close>, which turns an undefined \<open>valueB.value\<close> into the string
  \<^verbatim>\<open>undefined\<close>; an identifier is a number; a severity is compared by rank, and a rank
  that is missing makes the difference \<^verbatim>\<open>NaN\<close>; a position always has a value.
\<close>

fun compareValues :: "host \<Rightarrow> field \<Rightarrow> ResultsListRow \<Rightarrow> ResultsListRow \<Rightarrow> number" where
  "compareValues h (F_text f) rowA rowB =
     (case val (f rowA) of
        None \<Rightarrow> (if val (f rowB) = None then Finite 0 else Finite (- 1))
      | Some a \<Rightarrow> Finite (localeCompare h a (ToString (StrOpt (val (f rowB))))))"
| "compareValues h (F_number f) rowA rowB = Finite (f rowA - f rowB)"
| "compareValues h F_severity rowA rowB =
     (if sev_val (severityLevel rowA) = None
      then (if sev_val (severityLevel rowB) = None then Finite 0 else Finite (- 1))
      else (case (severityLevelOrder (severityLevel rowA), severityLevelOrder (severityLevel rowB)) of
              (Some a, Some b) \<Rightarrow> Finite (a - b)
            | _ \<Rightarrow> NaN))"
| "compareValues h F_position rowA rowB =
     (let posA = pos (resultStartPos rowA); posB = pos (resultStartPos rowB);
          compv = line posA - line posB
      in if compv = 0 then Finite (character posA - character posB) else Finite compv)"
| "compareValues h F_inherited rowA rowB = Finite 0"

text \<open>
  The comparison function of the rows. Reading \<^verbatim>\<open>this.sortBy.ascending\<close> throws when
  there is no sort setting, and reading \<^verbatim>\<open>valueA.value\<close> throws when the column names
  no property of a row; a setting with no column reads the property \<^verbatim>\<open>undefined\<close>.
\<close>

definition compareRows ::
  "host \<Rightarrow> ResultsListSortBy option \<Rightarrow> ResultsListRow \<Rightarrow> ResultsListRow \<Rightarrow> error + number" where
  "compareRows h sort_by a b =
     (case sort_by of
        None \<Rightarrow> Inl TypeError
      | Some s \<Rightarrow>
          (case field_of (ToString (StrOpt (column s))) of
             None \<Rightarrow> Inl TypeError
           | Some f \<Rightarrow>
               if ascending s then Inr (compareValues h f a b) else Inr (compareValues h f b a)))"

definition compareGroups :: "ResultsListGroup \<Rightarrow> ResultsListGroup \<Rightarrow> error + number" where
  "compareGroups a b = Inr (Finite (int (length (rows b)) - int (length (rows a))))"

text \<open>
  The loop over \<open>postFilterListRows\<close> that fills the map of the groups. A row that
  the store does not hold, or a \<open>groupBy\<close> that names no property of a row, throws.
\<close>

definition groupKey :: "string \<Rightarrow> field \<Rightarrow> ResultsListRow \<Rightarrow> jsval" where
  "groupKey group_by f row =
     (if group_by = ''sarifFile'' \<or> group_by = ''resultFile''
      then StrOpt (field_tooltip f row) else field_value f row)"

definition pushRow :: "jsval \<Rightarrow> ResultsListRow \<Rightarrow> (jsval, ResultsListGroup) Map
    \<Rightarrow> (jsval, ResultsListGroup) Map" where
  "pushRow key row gs = map (\<lambda>(k, g). if k = key then (k, g\<lparr>rows := rows g @ [row]\<rparr>) else (k, g)) gs"

fun groupRows :: "string \<Rightarrow> (string, ResultsListRow) Map \<Rightarrow> string list
    \<Rightarrow> (jsval, ResultsListGroup) Map \<Rightarrow> error + (jsval, ResultsListGroup) Map" where
  "groupRows group_by store [] gs = Inr gs"
| "groupRows group_by store (id' # ids) gs =
     (case Map_get store id' of
        None \<Rightarrow> Inl TypeError
      | Some row \<Rightarrow>
          (case field_of group_by of
             None \<Rightarrow> Inl TypeError
           | Some f \<Rightarrow>
               let key = groupKey group_by f row
               in if Map_has gs key then groupRows group_by store ids (pushRow key row gs)
                  else groupRows group_by store ids
                    (Map_set key
                       \<lparr>rows = [row], group_text = field_value f row,
                        group_tooltip = field_tooltip f row\<rparr> gs)))"

text \<open>The loop that sorts the rows of each group.\<close>

fun sortGroupRows :: "host \<Rightarrow> ResultsListSortBy option \<Rightarrow> ResultsListGroup list
    \<Rightarrow> error + ResultsListGroup list" where
  "sortGroupRows h sort_by [] = Inr []"
| "sortGroupRows h sort_by (g # gs) =
     (case ArraySort (compareRows h sort_by) (rows g) of
        Inl e \<Rightarrow> Inl e
      | Inr rs \<Rightarrow>
          (case sortGroupRows h sort_by gs of
             Inl e \<Rightarrow> Inl e
           | Inr gs' \<Rightarrow> Inr (g\<lparr>rows := rs\<rparr> # gs')))"

definition getResultData :: "host \<Rightarrow> controller \<Rightarrow> error + ResultsListData" where
  "getResultData h c =
     (case groupRows (groupBy c) (resultsListRows c) (postFilterListRows c) [] of
        Inl e \<Rightarrow> Inl e
      | Inr gm \<Rightarrow>
          (case ArraySort compareGroups (map snd gm) of
             Inl e \<Rightarrow> Inl e
           | Inr gs \<Rightarrow>
               (case sortGroupRows h (sortBy c) gs of
                  Inl e \<Rightarrow> Inl e
                | Inr gs' \<Rightarrow>
                    Inr \<lparr>data_columns = columns c,
                         data_filterCaseMatch = filterCaseMatch c,
                         data_filterText = filterText c,
                         data_groupBy = groupBy c,
                         groups = gs',
                         resultCount = Map_size (resultsListRows c),
                         data_sortBy = sortBy c\<rparr>)))"

definition postDataToExplorer :: "host \<Rightarrow> controller \<Rightarrow> outcome" where
  "postDataToExplorer h c =
     (case getResultData h c of
        Inl e \<Rightarrow> \<lparr>after = c, effects = [], thrown = Some e\<rparr>
      | Inr data \<Rightarrow> \<lparr>after = c, effects = [setResultsListData data], thrown = None\<rparr>)"

subsection \<open>Messages of the web view\<close>

text \<open>Two steps in a row: the second runs when the first threw nothing.\<close>

definition andThen :: "outcome \<Rightarrow> (controller \<Rightarrow> outcome) \<Rightarrow> outcome" where
  "andThen r f =
     (case thrown r of
        Some e \<Rightarrow> r
      | None \<Rightarrow> (let r' = f (after r) in r'\<lparr>effects := effects r @ effects r'\<rparr>))"

text \<open>
  \<^verbatim>\<open>onResultsListMessage\<close>. The settings are the ones the settings source holds when
  the message arrives; a write to them is an effect, and comes back later through
  \<^verbatim>\<open>onSettingsChanged\<close>.
\<close>

fun onResultsListMessage :: "host \<Rightarrow> settings \<Rightarrow> controller \<Rightarrow> WebviewMessage \<Rightarrow> outcome" where
  "onResultsListMessage h sarifConfig c (ResultsListColumnToggled data) =
     (let hideColsConfig = resultsListHideColumns sarifConfig;
          index = indexOf hideColsConfig data;
          hideColsConfig' = (if index \<noteq> - 1 then splice1 index hideColsConfig
                             else hideColsConfig @ [data])
      in \<lparr>after = c, effects = [update_HideColumns hideColsConfig'], thrown = None\<rparr>)"
| "onResultsListMessage h sarifConfig c (ResultsListFilterApplied data) =
     (let input = trim data
      in if input \<noteq> filterText c
         then andThen (updateFilteredRowsList h (c\<lparr>filterText := input\<rparr>)) (postDataToExplorer h)
         else \<lparr>after = c, effects = [], thrown = None\<rparr>)"
| "onResultsListMessage h sarifConfig c ResultsListFilterCaseToggled =
     andThen (updateFilteredRowsList h (c\<lparr>filterCaseMatch := \<not> filterCaseMatch c\<rparr>))
       (postDataToExplorer h)"
| "onResultsListMessage h sarifConfig c (ResultsListGroupChanged data) =
     (let groupByConfig = resultsListGroupBy sarifConfig;
          groupByConfig' = (if groupByConfig \<noteq> data then data else groupByConfig)
      in \<lparr>after = c, effects = [update_GroupBy groupByConfig'], thrown = None\<rparr>)"
| "onResultsListMessage h sarifConfig c (ResultsListResultSelected data) =
     (case data of
        Inl e \<Rightarrow> \<lparr>after = c, effects = [], thrown = Some e\<rparr>
      | Inr (result_id, run_id) \<Rightarrow>
          (case getResultInfo h result_id run_id of
             None \<Rightarrow> \<lparr>after = c, effects = [], thrown = Some TypeError\<rparr>
           | Some diagnostic \<Rightarrow>
               (case assignedLocation (resultInfo diagnostic) of
                  None \<Rightarrow> \<lparr>after = c, effects = [], thrown = Some TypeError\<rparr>
                | Some diagLocation \<Rightarrow>
                    \<lparr>after = c, effects = [openTextDocument diagLocation], thrown = None\<rparr>)))"
| "onResultsListMessage h sarifConfig c (ResultsListSortChanged data) =
     (case resultsListSortBy sarifConfig of
        None \<Rightarrow> \<lparr>after = c, effects = [], thrown = Some TypeError\<rparr>
      | Some sortByConfig \<Rightarrow>
          let sortByConfig' =
                (if column sortByConfig = Some data
                 then sortByConfig\<lparr>ascending := \<not> ascending sortByConfig\<rparr>
                 else sortByConfig\<lparr>column := Some data, ascending := True\<rparr>)
          in \<lparr>after = c, effects = [update_SortBy sortByConfig'], thrown = None\<rparr>)"

subsection \<open>Settings\<close>

definition checkIfColumnsChanged :: "settings \<Rightarrow> controller \<Rightarrow> controller \<times> bool" where
  "checkIfColumnsChanged sarifConfig c =
     (let hideCols = resultsListHideColumns sarifConfig;
          shouldHide = (\<lambda>col. indexOf hideCols col \<noteq> - 1)
      in (c\<lparr>columns := map (\<lambda>(col, d). (col, d\<lparr>hide := shouldHide col\<rparr>)) (columns c)\<rparr>,
          list_ex (\<lambda>(col, d). shouldHide col \<noteq> hide d) (columns c)))"

definition checkIfGroupByChanged :: "settings \<Rightarrow> controller \<Rightarrow> controller \<times> bool" where
  "checkIfGroupByChanged sarifConfig c =
     (let group = resultsListGroupBy sarifConfig
      in if group \<noteq> groupBy c then (c\<lparr>groupBy := group\<rparr>, True) else (c, False))"

text \<open>\<^verbatim>\<open>sort !== this.sortBy\<close> compares two objects by identity.\<close>

definition checkIfSortByChanged :: "settings \<Rightarrow> controller \<Rightarrow> controller \<times> bool" where
  "checkIfSortByChanged sarifConfig c =
     (let sort = resultsListSortBy sarifConfig
      in if map_option ref sort \<noteq> map_option ref (sortBy c)
         then (c\<lparr>sortBy := sort\<rparr>, True) else (c, False))"

text \<open>
  \<^verbatim>\<open>onSettingsChanged\<close>; the event is \<open>None\<close> for \<^verbatim>\<open>undefined\<close> and otherwise holds
  what \<^verbatim>\<open>affectsConfiguration\<close> answers for the section of the viewer.
\<close>

definition onSettingsChanged :: "host \<Rightarrow> settings \<Rightarrow> controller \<Rightarrow> bool option \<Rightarrow> outcome" where
  "onSettingsChanged h sarifConfig c event =
     (if event = None \<or> event = Some True
      then
        (let (c1, changed1) = checkIfColumnsChanged sarifConfig c;
             (c2, changed2) = checkIfGroupByChanged sarifConfig c1;
             (c3, changed3) = checkIfSortByChanged sarifConfig c2
         in if changed1 \<or> changed2 \<or> changed3 then postDataToExplorer h c3
            else \<lparr>after = c3, effects = [], thrown = None\<rparr>)
      else \<lparr>after = c, effects = [], thrown = None\<rparr>)"

definition initializeColumns :: "(string \<times> ResultsListColumn) list" where
  "initializeColumns =
     [(''message'', \<lparr>description = ''Result message'', hide = False, title = ''Message''\<rparr>),
      (''resultFile'', \<lparr>description = ''Result file location '', hide = False, title = ''File''\<rparr>),
      (''resultStartPos'',
         \<lparr>description = ''Results position in the file'', hide = False, title = ''Position''\<rparr>),
      (''ruleId'', \<lparr>description = ''Rule Id'', hide = False, title = ''Rule Id''\<rparr>),
      (''ruleName'', \<lparr>description = ''Rule Name'', hide = False, title = ''Rule Name''\<rparr>),
      (''runId'',
         \<lparr>description = ''Run Id generated based on order in the Sarif file'', hide = False,
          title = ''Run Id''\<rparr>),
      (''sarifFile'',
         \<lparr>description = ''Sarif file the result data is from'', hide = False,
          title = ''Sarif File''\<rparr>),
      (''severityLevel'', \<lparr>description = ''Severity Level'', hide = False, title = ''Severity''\<rparr>)]"

text \<open>
  The controller the constructor leaves: no row, no filter, and the settings read by its
  call of \<^verbatim>\<open>onSettingsChanged(undefined)\<close>, where \<open>groupBy\<close> and \<open>sortBy\<close> were still
  undefined.
\<close>

definition constructed :: "settings \<Rightarrow> controller" where
  "constructed sarifConfig =
     fst (checkIfColumnsChanged sarifConfig
       \<lparr>columns = initializeColumns,
        groupBy = resultsListGroupBy sarifConfig,
        sortBy = resultsListSortBy sarifConfig,
        resultsListRows = [],
        filterCaseMatch = False,
        filterText = '''',
        postFilterListRows = []\<rparr>)"

subsection \<open>A sample host\<close>

text \<open>
  The concrete evaluations below run on this host. Its \<^verbatim>\<open>RegExp\<close> stands for the
  host's constructor on three kinds of pattern: no pattern, which gives the empty regular
  expression, matched by every string; a pattern of printable ASCII characters none of
  which is a syntax character, which \<^verbatim>\<open>test\<close> searches as a piece of its argument,
  letters folded to upper case under the flag \<^verbatim>\<open>i\<close>; and a pattern with an opening
  parenthesis and no closing parenthesis, bracket or backslash, which the constructor
  rejects for its unterminated group. Nothing is said about another pattern or flag.
  Its \<^verbatim>\<open>localeCompare\<close> stands for the host's on strings of the letters a to z, where
  the order is the alphabetical one.
\<close>

definition syntaxCharacter :: "char \<Rightarrow> bool" where
  "syntaxCharacter c = (c \<in> set ''^$.*+?()[]{}|'' \<or> c = CHR 0x5C)"

definition literalPattern :: "string \<Rightarrow> bool" where
  "literalPattern p =
     list_all (\<lambda>c. 32 \<le> (of_char c :: nat) \<and> (of_char c :: nat) < 127 \<and> \<not> syntaxCharacter c) p"

definition unterminatedGroup :: "string \<Rightarrow> bool" where
  "unterminatedGroup p =
     (CHR ''('' \<in> set p \<and> CHR '')'' \<notin> set p \<and> CHR ''['' \<notin> set p \<and> CHR 0x5C \<notin> set p)"

definition toUpperCase :: "char \<Rightarrow> char" where
  "toUpperCase c =
     (if 97 \<le> (of_char c :: nat) \<and> (of_char c :: nat) \<le> 122 then char_of (of_char c - 32 :: nat)
      else c)"

fun startsWith :: "string \<Rightarrow> string \<Rightarrow> bool" where
  "startsWith s [] = True"
| "startsWith [] (c # p) = False"
| "startsWith (d # s) (c # p) = (d = c \<and> startsWith s p)"

fun String_includes :: "string \<Rightarrow> string \<Rightarrow> bool" where
  "String_includes [] p = (p = [])"
| "String_includes (d # s) p = (startsWith (d # s) p \<or> String_includes s p)"

definition sample_RegExp :: "string option \<Rightarrow> string option \<Rightarrow> error + RegExp" where
  "sample_RegExp pattern flags =
     (case pattern of
        None \<Rightarrow> Inr (\<lambda>s. True)
      | Some p \<Rightarrow>
          if literalPattern p \<and> flags = None then Inr (\<lambda>s. String_includes s p)
          else if literalPattern p \<and> flags = Some ''i''
          then Inr (\<lambda>s. String_includes (map toUpperCase s) (map toUpperCase p))
          else if unterminatedGroup p then Inl SyntaxError
          else undefined)"

fun alphabetical :: "string \<Rightarrow> string \<Rightarrow> int" where
  "alphabetical [] [] = 0"
| "alphabetical [] (d # t) = - 1"
| "alphabetical (c # s) [] = 1"
| "alphabetical (c # s) (d # t) =
     (if (of_char c :: nat) < of_char d then - 1
      else if (of_char d :: nat) < of_char c then 1
      else alphabetical s t)"

definition lowerCaseLetters :: "string \<Rightarrow> bool" where
  "lowerCaseLetters s = list_all (\<lambda>c. 97 \<le> (of_char c :: nat) \<and> (of_char c :: nat) \<le> 122) s"

definition sample_localeCompare :: "string \<Rightarrow> string \<Rightarrow> int" where
  "sample_localeCompare s t =
     (if lowerCaseLetters s \<and> lowerCaseLetters t then alphabetical s t else undefined)"

text \<open>Sample ranks of the severities, one run and two results of it.\<close>

fun sample_SeverityLevelOrder :: "level \<Rightarrow> int" where
  "sample_SeverityLevelOrder Level_error = 0"
| "sample_SeverityLevelOrder Level_warning = 1"
| "sample_SeverityLevelOrder Level_open = 2"
| "sample_SeverityLevelOrder Level_note = 3"
| "sample_SeverityLevelOrder Level_notApplicable = 4"
| "sample_SeverityLevelOrder Level_pass = 5"

definition sample_result :: "int \<Rightarrow> string option \<Rightarrow> string \<Rightarrow> SarifViewerDiagnostic" where
  "sample_result n rule_name path =
     \<lparr>resultInfo =
        \<lparr>info_message = Some ''leak'',
         info_id = n,
         info_ruleId = Some ''r'',
         info_ruleName = rule_name,
         info_runId = 0,
         info_severityLevel = Some Level_warning,
         info_locations = [\<lparr>fileName = ''a.c'', fsPath = path, range_start = \<lparr>line = 1, character = 4\<rparr>\<rparr>],
         assignedLocation = Some \<lparr>fileName = ''a.c'', fsPath = path, range_start = \<lparr>line = 1, character = 4\<rparr>\<rparr>\<rparr>\<rparr>"

definition sample_host :: host where
  "sample_host =
     \<lparr>RegExp_new = sample_RegExp,
      localeCompare = sample_localeCompare,
      SeverityLevelOrder = sample_SeverityLevelOrder,
      getRunInfo = (\<lambda>run_id. if run_id = 0
         then Some \<lparr>sarifFileName = ''log.sarif'', sarifFileFullPath = ''/logs/log.sarif''\<rparr> else None),
      getResultInfo = (\<lambda>result_id run_id.
         if run_id = 0 \<and> result_id = 1 then Some (sample_result 1 (Some ''abc'') ''/x/a.c'')
         else if run_id = 0 \<and> result_id = 2 then Some (sample_result 2 None ''/y/a.c'')
         else None)\<rparr>"

definition sample_settings :: settings where
  "sample_settings =
     \<lparr>resultsListHideColumns = [],
      resultsListGroupBy = ''resultFile'',
      resultsListSortBy = Some \<lparr>ref = 0, column = Some ''ruleName'', ascending = True\<rparr>\<rparr>"

subsection \<open>Predicates of the properties\<close>

text \<open>Each key of the row store, and each key of the list of the rows that pass the
  filter, stands there once.\<close>

definition rowsDistinct :: "controller \<Rightarrow> bool" where
  "rowsDistinct c = (distinct (Map_keys (resultsListRows c)) \<and> distinct (postFilterListRows c))"

text \<open>The six display values that the filter tests, in the order of the specification:
  message, rule id, rule name, severity level, result file, SARIF file.\<close>

definition testedFields :: "ResultsListRow \<Rightarrow> jsval list" where
  "testedFields row =
     [StrOpt (val (message row)), StrOpt (val (ruleId row)), StrOpt (val (ruleName row)),
      StrOpt (map_option level_name (sev_val (severityLevel row))),
      StrOpt (val (resultFile row)), StrOpt (val (sarifFile row))]"

text \<open>The controller after the constructor and one update with three results of the
  sample run, and the identifiers of the rows of a projection, group by group.\<close>

definition sample_three :: controller where
  "sample_three =
     after (updateResultsListData sample_host (constructed sample_settings)
       [sample_result 1 (Some ''abc'') ''/x/a.c'', sample_result 2 None ''/x/a.c'',
        sample_result 3 (Some ''xyz'') ''/y/a.c''] False)"

definition groupIds :: "error + ResultsListData \<Rightarrow> int list list" where
  "groupIds r = (case r of Inl e \<Rightarrow> [] | Inr data \<Rightarrow> map (\<lambda>g. map resultId (rows g)) (groups data))"

definition rowsPassing :: "host \<Rightarrow> controller \<Rightarrow> string list" where
  "rowsPassing h c =
     (case generateFilterRegExp h c of
        Inl e \<Rightarrow> []
      | Inr regEx \<Rightarrow> map fst (filter (\<lambda>(key, row). applyFilterToRow row regEx) (resultsListRows c)))"

text \<open>A sort setting that cannot be read: none at all, or one whose column (the property
  \<^verbatim>\<open>undefined\<close> when it has none) names no property of a row.\<close>

definition malformedSortBy :: "ResultsListSortBy option \<Rightarrow> bool" where
  "malformedSortBy sort_by =
     (case sort_by of None \<Rightarrow> True | Some s \<Rightarrow> field_of (ToString (StrOpt (column s))) = None)"

text \<open>The rows of the keys of the list of the rows that pass the filter, in its order.\<close>

definition listedRows :: "controller \<Rightarrow> ResultsListRow list" where
  "listedRows c = List.map_filter (Map_get (resultsListRows c)) (postFilterListRows c)"

text \<open>
  What the map of the groups holds once the rows \<open>seen\<close> went through the loop: one
  entry for each key, with every row seen of that key in the order met, and the value and
  tooltip of the first of them for label.
\<close>

definition groupsOf :: "(ResultsListRow \<Rightarrow> jsval) \<Rightarrow> (ResultsListRow \<Rightarrow> jsval)
    \<Rightarrow> (ResultsListRow \<Rightarrow> string option) \<Rightarrow> (jsval, ResultsListGroup) Map
    \<Rightarrow> ResultsListRow list \<Rightarrow> bool" where
  "groupsOf K V T gs seen =
     (distinct (map fst gs) \<and> fst ` set gs = K ` set seen \<and>
      (\<forall>(k, g) \<in> set gs.
         rows g = filter (\<lambda>r. K r = k) seen \<and>
         group_text g = V (hd (rows g)) \<and> group_tooltip g = T (hd (rows g))))"

definition sample_data :: ResultsListData where
  "sample_data = projr (getResultData sample_host sample_three)"

section \<open>Properties\<close>

subsection \<open>The filter message\<close>

lemma trim_parts:
  "\<exists>l r. s = l @ trim s @ r \<and> list_all isWhiteSpace l \<and> list_all isWhiteSpace r"
proof -
  define t where "t = dropWhile isWhiteSpace s"
  have s: "s = takeWhile isWhiteSpace s @ t"
    by (simp add: t_def)
  have "rev (takeWhile isWhiteSpace (rev t) @ dropWhile isWhiteSpace (rev t)) =
      rev (dropWhile isWhiteSpace (rev t)) @ rev (takeWhile isWhiteSpace (rev t))"
    by (rule rev_append)
  moreover have "takeWhile isWhiteSpace (rev t) @ dropWhile isWhiteSpace (rev t) = rev t"
    by (rule takeWhile_dropWhile_id)
  ultimately have "t = rev (dropWhile isWhiteSpace (rev t)) @ rev (takeWhile isWhiteSpace (rev t))"
    by (metis rev_rev_ident)
  then have t: "t = trim s @ rev (takeWhile isWhiteSpace (rev t))"
    by (simp add: trim_def t_def)
  have l: "list_all isWhiteSpace (takeWhile isWhiteSpace s)"
    by (simp add: list_all_iff) (meson set_takeWhileD)
  have r: "list_all isWhiteSpace (rev (takeWhile isWhiteSpace (rev t)))"
    by (simp add: list_all_iff) (meson set_takeWhileD)
  from s t have "s = takeWhile isWhiteSpace s @ trim s @ rev (takeWhile isWhiteSpace (rev t))"
    by simp
  with l r show ?thesis by blast
qed

lemma trim_ends:
  assumes "trim s \<noteq> []"
  shows "\<not> isWhiteSpace (hd (trim s)) \<and> \<not> isWhiteSpace (last (trim s))"
proof -
  define t where "t = dropWhile isWhiteSpace s"
  define u where "u = dropWhile isWhiteSpace (rev t)"
  have tr: "trim s = rev u" by (simp add: trim_def t_def u_def)
  with assms have u: "u \<noteq> []" by simp
  then have "\<not> isWhiteSpace (hd u)" unfolding u_def by (rule hd_dropWhile)
  then have last_ok: "\<not> isWhiteSpace (last (trim s))" using u by (simp add: tr last_rev)
  have "rev t \<noteq> []" using u by (auto simp: u_def)
  then have tne: "t \<noteq> []" by simp
  then have hdt: "\<not> isWhiteSpace (hd t)" unfolding t_def by (rule hd_dropWhile)
  have "\<exists>ys. rev t = ys @ u"
    unfolding u_def by (metis takeWhile_dropWhile_id)
  then obtain ys where "rev t = ys @ u" ..
  then have "last (rev t) = last u" using u by simp
  then have "hd t = last u" using tne by (simp add: last_rev)
  then have "hd (trim s) = hd t" using u by (simp add: tr hd_rev)
  with hdt last_ok show ?thesis by simp
qed

lemma after_postDataToExplorer: "after (postDataToExplorer h c) = c"
  by (simp add: postDataToExplorer_def split: sum.splits)

lemma after_andThen:
  "after (andThen r f) = (if thrown r = None then after (f (after r)) else after r)"
  by (simp add: andThen_def Let_def split: option.splits)

lemma filterText_updateFilteredRowsList:
  "filterText (after (updateFilteredRowsList h c)) = filterText c"
  by (simp add: updateFilteredRowsList_def Let_def split: sum.splits)

text \<open>
  C10. A filter-apply message first trims the white space at both ends of the raw input:
  the input is the trimmed text between two runs of white space, the trimmed text neither
  starts nor ends with white space, and it is the filter text the controller holds
  afterwards. When the trimmed text equals the current filter text the message does
  nothing: the controller is unchanged (the list of the rows that pass the filter is not
  computed again), nothing is posted and nothing is thrown.
\<close>

theorem filter_applied_trims_and_skips:
  "(\<exists>l r. data = l @ trim data @ r \<and> list_all isWhiteSpace l \<and> list_all isWhiteSpace r) \<and>
   (trim data \<noteq> [] \<longrightarrow> \<not> isWhiteSpace (hd (trim data)) \<and> \<not> isWhiteSpace (last (trim data))) \<and>
   filterText (after (onResultsListMessage h sarifConfig c (ResultsListFilterApplied data))) = trim data \<and>
   (trim data = filterText c \<longrightarrow>
      onResultsListMessage h sarifConfig c (ResultsListFilterApplied data) =
        \<lparr>after = c, effects = [], thrown = None\<rparr>)"
proof (intro conjI)
  show "\<exists>l r. data = l @ trim data @ r \<and> list_all isWhiteSpace l \<and> list_all isWhiteSpace r"
    by (rule trim_parts)
  show "trim data \<noteq> [] \<longrightarrow> \<not> isWhiteSpace (hd (trim data)) \<and> \<not> isWhiteSpace (last (trim data))"
    using trim_ends by blast
  show "filterText (after (onResultsListMessage h sarifConfig c (ResultsListFilterApplied data))) = trim data"
    by (simp add: Let_def after_andThen after_postDataToExplorer filterText_updateFilteredRowsList)
  show "trim data = filterText c \<longrightarrow>
      onResultsListMessage h sarifConfig c (ResultsListFilterApplied data) =
        \<lparr>after = c, effects = [], thrown = None\<rparr>"
    by (simp add: Let_def)
qed

lemma trim_sample: "trim '' abc  '' = ''abc''"
  by (simp add: trim_def isWhiteSpace_def)

theorem filter_applied_trims_and_skips_witness:
  "trim '' abc  '' = ''abc'' \<and>
   onResultsListMessage sample_host sample_settings
     ((constructed sample_settings)\<lparr>filterText := ''abc''\<rparr>) (ResultsListFilterApplied '' abc  '') =
     \<lparr>after = (constructed sample_settings)\<lparr>filterText := ''abc''\<rparr>, effects = [], thrown = None\<rparr>"
  using filter_applied_trims_and_skips
    [of "'' abc  ''" sample_host sample_settings "(constructed sample_settings)\<lparr>filterText := ''abc''\<rparr>"]
  by (simp add: trim_sample)

subsection \<open>An invalid filter pattern\<close>

lemma sample_RegExp_paren: "sample_RegExp (Some ''('') flags = Inl SyntaxError"
  by (simp add: sample_RegExp_def literalPattern_def syntaxCharacter_def unterminatedGroup_def)

lemma trim_paren: "trim ''('' = ''(''"
  by (simp add: trim_def isWhiteSpace_def)

lemma constructed_sample:
  "constructed sample_settings =
     \<lparr>columns = initializeColumns, groupBy = ''resultFile'',
      sortBy = Some \<lparr>ref = 0, column = Some ''ruleName'', ascending = True\<rparr>,
      resultsListRows = [], filterCaseMatch = False, filterText = '''',
      postFilterListRows = []\<rparr>"
  by (simp add: constructed_def sample_settings_def checkIfColumnsChanged_def initializeColumns_def)

text \<open>
  C1, as stated, fails: on the filter text \<^verbatim>\<open>(\<close> the constructor of the regular
  expression throws, and \<^verbatim>\<open>onResultsListMessage\<close> throws it on.
\<close>

theorem invalid_filter_pattern_counterexample:
  "thrown (onResultsListMessage sample_host sample_settings (constructed sample_settings)
     (ResultsListFilterApplied ''('')) = Some SyntaxError"
  by (simp add: trim_paren constructed_sample andThen_def updateFilteredRowsList_def
      generateFilterRegExp_def sample_host_def sample_RegExp_paren)

text \<open>
  C1, amended. Nothing catches the exception of the \<^verbatim>\<open>RegExp\<close> constructor. A
  filter-apply message whose trimmed text differs from the current filter text and is a
  pattern that the constructor rejects, and a filter-case-toggle message while the filter
  text is such a pattern under the toggled flag, throw the constructor's exception to the
  caller of \<^verbatim>\<open>onResultsListMessage\<close>. What is left is the controller with the new text
  (the toggled flag) stored and the list of the rows that pass the filter empty, and
  nothing is posted.
\<close>

theorem invalid_filter_pattern_is_thrown:
  "(trim data \<noteq> filterText c \<and> trim data \<noteq> '''' \<and>
    RegExp_new h (Some (trim data)) (if \<not> filterCaseMatch c then Some ''i'' else None) = Inl e \<longrightarrow>
    onResultsListMessage h sarifConfig c (ResultsListFilterApplied data) =
      \<lparr>after = c\<lparr>filterText := trim data, postFilterListRows := []\<rparr>, effects = [],
       thrown = Some e\<rparr>) \<and>
   (filterText c \<noteq> '''' \<and>
    RegExp_new h (Some (filterText c)) (if filterCaseMatch c then Some ''i'' else None) = Inl e \<longrightarrow>
    onResultsListMessage h sarifConfig c ResultsListFilterCaseToggled =
      \<lparr>after = c\<lparr>filterCaseMatch := \<not> filterCaseMatch c, postFilterListRows := []\<rparr>, effects = [],
       thrown = Some e\<rparr>)"
  by (simp add: Let_def andThen_def updateFilteredRowsList_def generateFilterRegExp_def)

theorem invalid_filter_pattern_is_thrown_witness:
  "onResultsListMessage sample_host sample_settings (constructed sample_settings)
     (ResultsListFilterApplied ''('') =
     \<lparr>after = (constructed sample_settings)\<lparr>filterText := ''('', postFilterListRows := []\<rparr>,
      effects = [], thrown = Some SyntaxError\<rparr> \<and>
   onResultsListMessage sample_host sample_settings
     ((constructed sample_settings)\<lparr>filterText := ''(''\<rparr>) ResultsListFilterCaseToggled =
     \<lparr>after = (constructed sample_settings)\<lparr>filterText := ''('', filterCaseMatch := True,
        postFilterListRows := []\<rparr>,
      effects = [], thrown = Some SyntaxError\<rparr>"
  using invalid_filter_pattern_is_thrown
    [of "''(''" "constructed sample_settings" sample_host SyntaxError sample_settings]
    invalid_filter_pattern_is_thrown
    [of "''(''" "(constructed sample_settings)\<lparr>filterText := ''(''\<rparr>" sample_host SyntaxError sample_settings]
  by (simp add: trim_paren constructed_sample sample_host_def sample_RegExp_paren)

subsection \<open>Selecting a row\<close>

text \<open>
  C2, as stated, fails: the sample collection knows no result 7 of run 0, and the
  selection of it throws.
\<close>

theorem row_select_unresolved_counterexample:
  "getResultInfo sample_host 7 0 = None \<and>
   thrown (onResultsListMessage sample_host sample_settings (constructed sample_settings)
     (ResultsListResultSelected (Inr (7, 0)))) = Some TypeError"
  by (simp add: sample_host_def)

text \<open>
  C2, amended. Whatever the message of a selection holds, handling it leaves the
  controller as it was: row store, list of the rows that pass the filter, filter text and
  case, columns, group-by and sort-by. When the identity resolves to a result with an
  assigned location, the document of the location is asked for and nothing is thrown.
  When the identity does not resolve, nothing is asked for, and reading the result info
  of the missing diagnostic throws a \<^verbatim>\<open>TypeError\<close> to the caller.
\<close>

theorem row_select_keeps_controller:
  "after (onResultsListMessage h sarifConfig c (ResultsListResultSelected data)) = c \<and>
   (\<forall>result_id run_id diagnostic diagLocation.
      data = Inr (result_id, run_id) \<and> getResultInfo h result_id run_id = Some diagnostic \<and>
      assignedLocation (resultInfo diagnostic) = Some diagLocation \<longrightarrow>
      onResultsListMessage h sarifConfig c (ResultsListResultSelected data) =
        \<lparr>after = c, effects = [openTextDocument diagLocation], thrown = None\<rparr>) \<and>
   (\<forall>result_id run_id.
      data = Inr (result_id, run_id) \<and> getResultInfo h result_id run_id = None \<longrightarrow>
      onResultsListMessage h sarifConfig c (ResultsListResultSelected data) =
        \<lparr>after = c, effects = [], thrown = Some TypeError\<rparr>)"
  by (auto split: sum.splits option.splits prod.splits)

theorem row_select_keeps_controller_witness:
  "onResultsListMessage sample_host sample_settings (constructed sample_settings)
     (ResultsListResultSelected (Inr (1, 0))) =
     \<lparr>after = constructed sample_settings,
      effects = [openTextDocument
        \<lparr>fileName = ''a.c'', fsPath = ''/x/a.c'', range_start = \<lparr>line = 1, character = 4\<rparr>\<rparr>],
      thrown = None\<rparr> \<and>
   onResultsListMessage sample_host sample_settings (constructed sample_settings)
     (ResultsListResultSelected (Inr (7, 0))) =
     \<lparr>after = constructed sample_settings, effects = [], thrown = Some TypeError\<rparr>"
  using row_select_keeps_controller
    [of sample_host sample_settings "constructed sample_settings" "Inr (1, 0)"]
    row_select_keeps_controller
    [of sample_host sample_settings "constructed sample_settings" "Inr (7, 0)"]
  by (simp add: sample_host_def sample_result_def)

subsection \<open>Lists and maps\<close>

lemma indexOf_ge: "- 1 \<le> indexOf xs x"
  by (induction xs) (auto simp: Let_def)

lemma indexOf_minus1: "indexOf xs x = - 1 \<longleftrightarrow> x \<notin> set xs"
proof (induction xs)
  case Nil
  show ?case by simp
next
  case (Cons y ys)
  have "- 1 \<le> indexOf ys x" by (rule indexOf_ge)
  with Cons show ?case by (auto simp: Let_def)
qed

lemma distinct_splice: "distinct xs \<Longrightarrow> distinct (splice i xs)"
  by (simp add: splice_def)

lemma set_splice: "set (splice i xs) \<subseteq> set xs"
  by (simp add: splice_def set_take_subset)

lemma keys_Map_set:
  "map fst (Map_set k v m) = (if k \<in> set (map fst m) then map fst m else map fst m @ [k])"
  by (induction m) auto

lemma keys_Map_delete: "map fst (Map_delete k m) = filter (\<lambda>x. x \<noteq> k) (map fst m)"
  by (simp add: Map_delete_def filter_map comp_def)

lemma distinct_Map_set: "distinct (map fst m) \<Longrightarrow> distinct (map fst (Map_set k v m))"
  by (simp add: keys_Map_set)

lemma distinct_Map_delete: "distinct (map fst m) \<Longrightarrow> distinct (map fst (Map_delete k m))"
  by (simp add: keys_Map_delete)

subsection \<open>The list of the rows that pass the filter\<close>

lemma rowsDistinct_removeRows: "rowsDistinct c \<Longrightarrow> rowsDistinct (removeRows diags c)"
proof (induction diags arbitrary: c)
  case Nil
  then show ?case by simp
next
  case (Cons d diags)
  show ?case
    unfolding removeRows.simps Let_def
    by (rule Cons.IH)
       (use Cons.prems in \<open>auto simp: rowsDistinct_def Map_keys_def distinct_Map_delete distinct_splice\<close>)
qed

lemma rowsDistinct_updateRows:
  "rowsDistinct c \<Longrightarrow> rowsDistinct (after (updateRows h regEx diags c))"
proof (induction diags arbitrary: c)
  case Nil
  then show ?case by simp
next
  case (Cons d diags)
  show ?case
  proof (cases "createResultsListRow h (resultInfo d)")
    case (Inl e)
    with Cons.prems show ?thesis by simp
  next
    case (Inr row)
    show ?thesis
      unfolding updateRows.simps Inr sum.case Let_def
      by (rule Cons.IH)
         (use Cons.prems in \<open>auto simp: rowsDistinct_def Map_keys_def distinct_Map_set
            distinct_splice indexOf_minus1\<close>)
  qed
qed

lemma rowsDistinct_updateFilteredRowsList:
  "rowsDistinct c \<Longrightarrow> rowsDistinct (after (updateFilteredRowsList h c))"
  by (auto simp: rowsDistinct_def Map_keys_def updateFilteredRowsList_def Let_def distinct_map_filter
      split: sum.splits)

lemma rowsDistinct_onResultsListMessage:
  assumes "rowsDistinct c"
  shows "rowsDistinct (after (onResultsListMessage h sarifConfig c msg))"
proof (cases msg)
  case (ResultsListFilterApplied data)
  have "rowsDistinct (c\<lparr>filterText := trim data\<rparr>)"
    using assms by (simp add: rowsDistinct_def)
  then show ?thesis
    using assms ResultsListFilterApplied
    by (simp add: Let_def after_andThen after_postDataToExplorer rowsDistinct_updateFilteredRowsList)
next
  case ResultsListFilterCaseToggled
  have "rowsDistinct (c\<lparr>filterCaseMatch := \<not> filterCaseMatch c\<rparr>)"
    using assms by (simp add: rowsDistinct_def)
  then show ?thesis
    using ResultsListFilterCaseToggled
    by (simp add: after_andThen after_postDataToExplorer rowsDistinct_updateFilteredRowsList)
next
  case (ResultsListResultSelected data)
  then show ?thesis
    using assms by (auto split: sum.splits option.splits prod.splits)
qed (use assms in \<open>auto simp: Let_def split: option.splits\<close>)

lemma rowsDistinct_onSettingsChanged:
  assumes "rowsDistinct c"
  shows "rowsDistinct (after (onSettingsChanged h sarifConfig c event))"
proof -
  have "resultsListRows (after (onSettingsChanged h sarifConfig c event)) = resultsListRows c \<and>
        postFilterListRows (after (onSettingsChanged h sarifConfig c event)) = postFilterListRows c"
    by (simp add: onSettingsChanged_def checkIfColumnsChanged_def checkIfGroupByChanged_def
        checkIfSortByChanged_def Let_def after_postDataToExplorer)
  with assms show ?thesis by (simp add: rowsDistinct_def)
qed

text \<open>
  C9. The controller the constructor leaves holds each key of the row store once and each
  key of the list of the rows that pass the filter once, and every public operation keeps
  that so, whether it returns or throws: \<^verbatim>\<open>updateResultsListData\<close> with the flag set
  or not, \<^verbatim>\<open>onResultsListMessage\<close> on any message, \<^verbatim>\<open>onSettingsChanged\<close> on any
  event.
\<close>

theorem post_filter_list_has_no_duplicate:
  "rowsDistinct (constructed sarifConfig) \<and>
   (rowsDistinct c \<longrightarrow>
      distinct (postFilterListRows (after (updateResultsListData h c diags remove))) \<and>
      rowsDistinct (after (updateResultsListData h c diags remove)) \<and>
      distinct (postFilterListRows (after (onResultsListMessage h sarifConfig c msg))) \<and>
      rowsDistinct (after (onResultsListMessage h sarifConfig c msg)) \<and>
      distinct (postFilterListRows (after (onSettingsChanged h sarifConfig c event))) \<and>
      rowsDistinct (after (onSettingsChanged h sarifConfig c event)))"
proof -
  have 0: "rowsDistinct (constructed sarifConfig)"
    by (simp add: rowsDistinct_def constructed_def checkIfColumnsChanged_def Map_keys_def Let_def)
  have 1: "rowsDistinct (after (updateResultsListData h c diags remove))" if "rowsDistinct c"
    using that
    by (auto simp: updateResultsListData_def rowsDistinct_removeRows rowsDistinct_updateRows
        split: sum.splits)
  show ?thesis
    using 0 1 rowsDistinct_onResultsListMessage [of c h sarifConfig msg]
      rowsDistinct_onSettingsChanged [of c h sarifConfig event]
    by (auto simp: rowsDistinct_def)
qed


lemma sample_update_twice:
  "postFilterListRows (after (updateResultsListData sample_host (constructed sample_settings)
     [sample_result 1 None ''/x/a.c'', sample_result 1 None ''/x/a.c''] False)) = [''0_1'']"
  by code_simp

theorem post_filter_list_has_no_duplicate_witness:
  "rowsDistinct (constructed sample_settings) \<and>
   postFilterListRows (after (updateResultsListData sample_host (constructed sample_settings)
     [sample_result 1 None ''/x/a.c'', sample_result 1 None ''/x/a.c''] False)) = [''0_1''] \<and>
   distinct (postFilterListRows (after (updateResultsListData sample_host (constructed sample_settings)
     [sample_result 1 None ''/x/a.c'', sample_result 1 None ''/x/a.c''] False))) \<and>
   distinct (postFilterListRows (after (onResultsListMessage sample_host sample_settings
     (constructed sample_settings) ResultsListFilterCaseToggled))) \<and>
   distinct (postFilterListRows (after (onSettingsChanged sample_host sample_settings
     (constructed sample_settings) None)))"
  using post_filter_list_has_no_duplicate [of sample_settings "constructed sample_settings"
      sample_host "[sample_result 1 None ''/x/a.c'', sample_result 1 None ''/x/a.c'']" False
      ResultsListFilterCaseToggled None]
    sample_update_twice
  by simp

subsection \<open>The filter on a row\<close>

lemma sample_three_rows:
  "Map_keys (resultsListRows sample_three) = [''0_1'', ''0_2'', ''0_3''] \<and>
   postFilterListRows sample_three = [''0_1'', ''0_2'', ''0_3''] \<and>
   filterText sample_three = '''' \<and> filterCaseMatch sample_three = False"
  by code_simp

text \<open>
  What does hold of the filter. \<^verbatim>\<open>applyFilterToRow\<close> answers true exactly when the
  regular expression matches the string that \<^verbatim>\<open>test\<close> makes of one of the six tested
  values. The regular expression is made from the filter text, with the flag \<^verbatim>\<open>i\<close>
  exactly when the case need not match, and from no pattern when the filter text is
  empty. A filter recompute keeps, in the order of the row store, the keys of the rows
  that match; with the empty filter text it keeps every row.
\<close>

lemma filter_tests_six_values:
  "applyFilterToRow row regExp = list_ex (\<lambda>v. regExp (ToString v)) (testedFields row) \<and>
   generateFilterRegExp h c =
     RegExp_new h (if filterText c = '''' then None else Some (filterText c))
       (if filterCaseMatch c then None else Some ''i'') \<and>
   (generateFilterRegExp h c = Inr regExp \<longrightarrow>
      postFilterListRows (after (updateFilteredRowsList h c)) =
        map fst (filter (\<lambda>(key, row). filterText c = '''' \<or>
                   list_ex (\<lambda>v. regExp (ToString v)) (testedFields row)) (resultsListRows c))) \<and>
   (filterText c = '''' \<and> generateFilterRegExp h c = Inr regExp \<longrightarrow>
      postFilterListRows (after (updateFilteredRowsList h c)) = Map_keys (resultsListRows c)) \<and>
   ((\<forall>s. regExp s) \<longrightarrow> applyFilterToRow row regExp)"
proof -
  have a: "applyFilterToRow r regExp = list_ex (\<lambda>v. regExp (ToString v)) (testedFields r)" for r
    by (simp add: applyFilterToRow_def testedFields_def)
  have b: "generateFilterRegExp h c =
     RegExp_new h (if filterText c = '''' then None else Some (filterText c))
       (if filterCaseMatch c then None else Some ''i'')"
    by (simp add: generateFilterRegExp_def)
  have g: "generateFilterRegExp h (c\<lparr>postFilterListRows := []\<rparr>) = generateFilterRegExp h c"
    by (simp add: generateFilterRegExp_def)
  have c: "postFilterListRows (after (updateFilteredRowsList h c)) =
        map fst (filter (\<lambda>(key, row). filterText c = '''' \<or>
                   list_ex (\<lambda>v. regExp (ToString v)) (testedFields row)) (resultsListRows c))"
    if "generateFilterRegExp h c = Inr regExp"
    using that by (simp add: updateFilteredRowsList_def g a)
  have d: "postFilterListRows (after (updateFilteredRowsList h c)) = Map_keys (resultsListRows c)"
    if "filterText c = ''''" "generateFilterRegExp h c = Inr regExp"
    using that by (simp add: updateFilteredRowsList_def g Map_keys_def)
  have e: "applyFilterToRow row regExp" if "\<forall>s. regExp s"
    using that by (simp add: applyFilterToRow_def)
  from a b c d e show ?thesis by blast
qed

text \<open>
  C5 at its failing input. Row 2 of the sample has no rule name: its six tested values
  are \<^verbatim>\<open>leak\<close>, \<^verbatim>\<open>r\<close>, undefined, \<^verbatim>\<open>warning\<close>, \<^verbatim>\<open>a.c\<close> and \<^verbatim>\<open>log.sarif\<close>, and
  none of the five that it has holds the text \<^verbatim>\<open>undefined\<close> or the text \<^verbatim>\<open>def\<close>, in
  any case of the letters. Still the filter texts \<^verbatim>\<open>undefined\<close> and \<^verbatim>\<open>def\<close> keep
  row 2, and only row 2: \<^verbatim>\<open>test\<close> makes the missing rule name the string
  \<^verbatim>\<open>undefined\<close>.
\<close>

theorem filter_undefined_field_failing_input:
  "map_option testedFields (Map_get (resultsListRows sample_three) ''0_2'') =
     Some [Str ''leak'', Str ''r'', Undefined, Str ''warning'', Str ''a.c'', Str ''log.sarif''] \<and>
   list_ex (\<lambda>s. String_includes (map toUpperCase s) (map toUpperCase ''undefined''))
     [''leak'', ''r'', ''warning'', ''a.c'', ''log.sarif''] = False \<and>
   list_ex (\<lambda>s. String_includes (map toUpperCase s) (map toUpperCase ''def''))
     [''leak'', ''r'', ''warning'', ''a.c'', ''log.sarif''] = False \<and>
   thrown (onResultsListMessage sample_host sample_settings sample_three
     (ResultsListFilterApplied ''undefined'')) = None \<and>
   postFilterListRows (after (onResultsListMessage sample_host sample_settings sample_three
     (ResultsListFilterApplied ''undefined''))) = [''0_2''] \<and>
   thrown (onResultsListMessage sample_host sample_settings sample_three
     (ResultsListFilterApplied ''def'')) = None \<and>
   postFilterListRows (after (onResultsListMessage sample_host sample_settings sample_three
     (ResultsListFilterApplied ''def''))) = [''0_2''] \<and>
   map_option (\<lambda>row. applyFilterToRow row (\<lambda>s. String_includes s ''undefined''))
     (Map_get (resultsListRows sample_three) ''0_2'') = Some True"
  by code_simp

subsection \<open>Removing rows\<close>

text \<open>
  What does hold of a removal: it takes the listed keys out of the row store and nothing
  else, each deletion makes the store one smaller when the key was there and leaves it
  otherwise, and the list of the rows that pass the filter is cut to one of its prefixes.
\<close>

lemma rows_removeRows:
  "resultsListRows (removeRows diags c) =
     filter (\<lambda>p. fst p \<notin> set (map (\<lambda>d. rowId (info_runId (resultInfo d)) (info_id (resultInfo d))) diags))
       (resultsListRows c)"
proof (induction diags arbitrary: c)
  case Nil
  show ?case by simp
next
  case (Cons d diags)
  show ?case
    unfolding removeRows.simps Let_def
    by (subst Cons.IH) (auto simp: Map_delete_def intro: filter_cong)
qed

lemma size_Map_delete:
  "distinct (map fst m) \<Longrightarrow>
   Map_size (Map_delete k m) = (if Map_has m k then Map_size m - 1 else Map_size m)"
proof (induction m)
  case Nil
  show ?case by (simp add: Map_size_def Map_delete_def Map_has_def)
next
  case (Cons p m)
  then show ?case
    by (cases "fst p = k")
       (auto simp: Map_size_def Map_delete_def Map_has_def filter_id_conv
          intro: rev_image_eqI dest: length_pos_if_in_set)
qed

lemma post_removeRows_prefix:
  "\<exists>n. postFilterListRows (removeRows diags c) = take n (postFilterListRows c)"
proof (induction diags arbitrary: c)
  case Nil
  have "postFilterListRows c = take (length (postFilterListRows c)) (postFilterListRows c)" by simp
  then show ?case by (metis removeRows.simps(1))
next
  case (Cons d diags)
  let ?id = "rowId (info_runId (resultInfo d)) (info_id (resultInfo d))"
  let ?c1 = "c\<lparr>resultsListRows := Map_delete ?id (resultsListRows c)\<rparr>"
  let ?c2 = "if indexOf (postFilterListRows ?c1) ?id \<noteq> - 1
      then ?c1\<lparr>postFilterListRows := splice (indexOf (postFilterListRows ?c1) ?id) (postFilterListRows ?c1)\<rparr>
      else ?c1"
  from Cons.IH [of ?c2] obtain n where
    n: "postFilterListRows (removeRows diags ?c2) = take n (postFilterListRows ?c2)" ..
  have "\<exists>m. postFilterListRows ?c2 = take m (postFilterListRows c)"
  proof (cases "indexOf (postFilterListRows ?c1) ?id \<noteq> - 1")
    case True
    then show ?thesis by (auto simp: splice_def)
  next
    case False
    then show ?thesis
      by (intro exI [of _ "length (postFilterListRows c)"]) simp
  qed
  then obtain m where "postFilterListRows ?c2 = take m (postFilterListRows c)" ..
  with n have "postFilterListRows (removeRows diags ?c2) = take (min n m) (postFilterListRows c)"
    by (simp add: take_take)
  then show ?case by (auto simp: Let_def)
qed

text \<open>
  C3 at its failing input. The three sample rows are in the row store and in the list
  of the rows that pass the filter; the removal of the first one takes it out of the row
  store and nothing else, but empties the list, though rows 2 and 3 are still stored and
  were in it.
\<close>

theorem batch_removal_failing_input:
  "postFilterListRows sample_three = [''0_1'', ''0_2'', ''0_3''] \<and>
   Map_keys (resultsListRows
     (after (updateResultsListData sample_host sample_three [sample_result 1 (Some ''abc'') ''/x/a.c''] True))) =
     [''0_2'', ''0_3''] \<and>
   postFilterListRows
     (after (updateResultsListData sample_host sample_three [sample_result 1 (Some ''abc'') ''/x/a.c''] True)) = []"
  by code_simp

text \<open>
  C4 at its failing input. After the same removal the filter text is still empty, so
  the two rows that are left pass the filter; the projection counts them in
  \<open>resultCount\<close> and shows none of them in its groups.
\<close>

theorem projection_counts_failing_input:
  "rowsPassing sample_host
     (after (updateResultsListData sample_host sample_three [sample_result 1 (Some ''abc'') ''/x/a.c''] True)) =
     [''0_2'', ''0_3''] \<and>
   map_sum id resultCount (getResultData sample_host
     (after (updateResultsListData sample_host sample_three [sample_result 1 (Some ''abc'') ''/x/a.c''] True))) =
     Inr 2 \<and>
   map_sum id groups (getResultData sample_host
     (after (updateResultsListData sample_host sample_three [sample_result 1 (Some ''abc'') ''/x/a.c''] True))) =
     Inr []"
  by code_simp

subsection \<open>The order of the rows\<close>

text \<open>Descending order is the ascending comparison with its operands swapped.\<close>

lemma compareRows_descending:
  "compareRows h (Some (s\<lparr>ascending := False\<rparr>)) a b = compareRows h (Some (s\<lparr>ascending := True\<rparr>)) b a"
  by (simp add: compareRows_def split: option.splits)

text \<open>
  C6 at its failing input. Rows 1 and 2 stand in one group; the rule name of row 1 is
  \<^verbatim>\<open>abc\<close> and row 2 has none. Ascending, the comparison of row 1 with row 2 is
  negative: the defined value is put before the undefined one. The comparison of the two
  rows is negative in both orders of the operands and in both directions of the sort, so
  the comparison function is the same in both directions on these rows, and the
  projection holds the same groups with the same rows in the same order whether the
  setting is ascending or descending.
\<close>

theorem undefined_sort_value_failing_input:
  "(case (Map_get (resultsListRows sample_three) ''0_1'', Map_get (resultsListRows sample_three) ''0_2'') of
      (Some row1, Some row2) \<Rightarrow>
        val (ruleName row1) = Some ''abc'' \<and> val (ruleName row2) = None \<and>
        compareRows sample_host (Some \<lparr>ref = 0, column = Some ''ruleName'', ascending = True\<rparr>)
          row1 row2 = Inr (Finite (- 1)) \<and>
        compareRows sample_host (Some \<lparr>ref = 0, column = Some ''ruleName'', ascending = True\<rparr>)
          row2 row1 = Inr (Finite (- 1)) \<and>
        compareRows sample_host (Some \<lparr>ref = 1, column = Some ''ruleName'', ascending = False\<rparr>)
          row1 row2 = Inr (Finite (- 1)) \<and>
        compareRows sample_host (Some \<lparr>ref = 1, column = Some ''ruleName'', ascending = False\<rparr>)
          row2 row1 = Inr (Finite (- 1))
    | _ \<Rightarrow> False) \<and>
   sortBy sample_three = Some \<lparr>ref = 0, column = Some ''ruleName'', ascending = True\<rparr> \<and>
   map (\<lambda>ids. sort ids) (groupIds (getResultData sample_host sample_three)) = [[1, 2], [3]] \<and>
   groupIds (getResultData sample_host sample_three) =
   groupIds (getResultData sample_host
     (sample_three\<lparr>sortBy := Some \<lparr>ref = 1, column = Some ''ruleName'', ascending = False\<rparr>\<rparr>))"
  by code_simp

subsection \<open>A malformed sort setting\<close>

lemma compareRows_malformed: "malformedSortBy sort_by \<Longrightarrow> compareRows h sort_by a b = Inl TypeError"
  by (cases sort_by) (auto simp: malformedSortBy_def compareRows_def)

lemma ArraySort_throwing:
  assumes "\<And>a b. cmp a b = Inl e"
  shows "ArraySort cmp xs = (if length xs \<le> 1 then Inr xs else Inl e)"
proof (induction xs)
  case Nil
  show ?case by simp
next
  case (Cons x xs)
  show ?case
  proof (cases xs)
    case Nil
    then show ?thesis by simp
  next
    case (Cons y ys)
    note xs = this
    show ?thesis
    proof (cases ys)
      case Nil
      with xs show ?thesis by (simp add: assms)
    next
      case (Cons z zs)
      with xs Cons.IH show ?thesis by simp
    qed
  qed
qed

lemma sortGroupRows_malformed:
  assumes "malformedSortBy sort_by"
  shows "sortGroupRows h sort_by gs =
     (if list_all (\<lambda>g. length (rows g) \<le> 1) gs then Inr gs else Inl TypeError)"
proof (induction gs)
  case Nil
  show ?case by simp
next
  case (Cons g gs)
  have "ArraySort (compareRows h sort_by) (rows g) =
      (if length (rows g) \<le> 1 then Inr (rows g) else Inl TypeError)"
    by (rule ArraySort_throwing) (simp add: compareRows_malformed assms)
  with Cons.IH show ?case by simp
qed

text \<open>
  C8, as stated, fails: the sort setting names the column \<^verbatim>\<open>fileName\<close>, which no row
  has, and the projection of the three sample rows, two of them in one group, throws; so
  does \<^verbatim>\<open>onSettingsChanged\<close>, which stores the setting unchecked and builds the
  projection.
\<close>

theorem malformed_sort_by_counterexample:
  "getResultData sample_host
     (sample_three\<lparr>sortBy := Some \<lparr>ref = 1, column = Some ''fileName'', ascending = True\<rparr>\<rparr>) =
     Inl TypeError \<and>
   thrown (onSettingsChanged sample_host
     (sample_settings\<lparr>resultsListSortBy := Some \<lparr>ref = 1, column = Some ''fileName'', ascending = True\<rparr>\<rparr>)
     sample_three None) = Some TypeError \<and>
   thrown (onSettingsChanged sample_host
     (sample_settings\<lparr>resultsListSortBy := Some \<lparr>ref = 1, column = None, ascending = True\<rparr>\<rparr>)
     sample_three None) = Some TypeError"
  by code_simp

text \<open>
  C8, amended. With no sort setting, or one whose column names no property of a row, the
  comparison of two rows throws a \<^verbatim>\<open>TypeError\<close>. The rows of a group of at most one
  row are never compared: when every group is such a group the projection is built, its
  groups in the order of their sizes and unchanged; as soon as one group has two rows,
  building the projection throws the \<^verbatim>\<open>TypeError\<close>.
\<close>

theorem malformed_sort_by_throws_on_two_rows:
  "malformedSortBy (sortBy c) \<longrightarrow>
   ArraySort (compareRows h (sortBy c)) rs = (if length rs \<le> 1 then Inr rs else Inl TypeError) \<and>
   getResultData h c =
     (case groupRows (groupBy c) (resultsListRows c) (postFilterListRows c) [] of
        Inl e \<Rightarrow> Inl e
      | Inr gm \<Rightarrow>
          (case ArraySort compareGroups (map snd gm) of
             Inl e \<Rightarrow> Inl e
           | Inr gs \<Rightarrow>
               if list_all (\<lambda>g. length (rows g) \<le> 1) gs
               then Inr \<lparr>data_columns = columns c,
                         data_filterCaseMatch = filterCaseMatch c,
                         data_filterText = filterText c,
                         data_groupBy = groupBy c,
                         groups = gs,
                         resultCount = Map_size (resultsListRows c),
                         data_sortBy = sortBy c\<rparr>
               else Inl TypeError))"
proof
  assume m: "malformedSortBy (sortBy c)"
  have 1: "ArraySort (compareRows h (sortBy c)) rs = (if length rs \<le> 1 then Inr rs else Inl TypeError)"
    by (rule ArraySort_throwing) (simp add: compareRows_malformed m)
  have 2: "getResultData h c =
     (case groupRows (groupBy c) (resultsListRows c) (postFilterListRows c) [] of
        Inl e \<Rightarrow> Inl e
      | Inr gm \<Rightarrow>
          (case ArraySort compareGroups (map snd gm) of
             Inl e \<Rightarrow> Inl e
           | Inr gs \<Rightarrow>
               if list_all (\<lambda>g. length (rows g) \<le> 1) gs
               then Inr \<lparr>data_columns = columns c,
                         data_filterCaseMatch = filterCaseMatch c,
                         data_filterText = filterText c,
                         data_groupBy = groupBy c,
                         groups = gs,
                         resultCount = Map_size (resultsListRows c),
                         data_sortBy = sortBy c\<rparr>
               else Inl TypeError))"
    by (simp add: getResultData_def sortGroupRows_malformed [OF m] split: sum.splits)
  from 1 2 show "ArraySort (compareRows h (sortBy c)) rs = (if length rs \<le> 1 then Inr rs else Inl TypeError) \<and>
   getResultData h c =
     (case groupRows (groupBy c) (resultsListRows c) (postFilterListRows c) [] of
        Inl e \<Rightarrow> Inl e
      | Inr gm \<Rightarrow>
          (case ArraySort compareGroups (map snd gm) of
             Inl e \<Rightarrow> Inl e
           | Inr gs \<Rightarrow>
               if list_all (\<lambda>g. length (rows g) \<le> 1) gs
               then Inr \<lparr>data_columns = columns c,
                         data_filterCaseMatch = filterCaseMatch c,
                         data_filterText = filterText c,
                         data_groupBy = groupBy c,
                         groups = gs,
                         resultCount = Map_size (resultsListRows c),
                         data_sortBy = sortBy c\<rparr>
               else Inl TypeError))"
    by simp
qed

lemma sample_malformed:
  "malformedSortBy (Some \<lparr>ref = 1, column = Some ''fileName'', ascending = True\<rparr>)"
  by (simp add: malformedSortBy_def field_of_def StrOpt_def Object_prototype_def)

lemma sample_three_malformed:
  "getResultData sample_host
     (sample_three\<lparr>sortBy := Some \<lparr>ref = 1, column = Some ''fileName'', ascending = True\<rparr>\<rparr>) =
     Inl TypeError"
  by code_simp

theorem malformed_sort_by_throws_on_two_rows_witness:
  "malformedSortBy (Some \<lparr>ref = 1, column = Some ''fileName'', ascending = True\<rparr>) \<and>
   getResultData sample_host
     (sample_three\<lparr>sortBy := Some \<lparr>ref = 1, column = Some ''fileName'', ascending = True\<rparr>\<rparr>) =
     Inl TypeError \<and>
   ArraySort (compareRows sample_host (Some \<lparr>ref = 1, column = Some ''fileName'', ascending = True\<rparr>))
     (map snd (resultsListRows sample_three)) = Inl TypeError \<and>
   ArraySort (compareRows sample_host (Some \<lparr>ref = 1, column = Some ''fileName'', ascending = True\<rparr>))
     (take 1 (map snd (resultsListRows sample_three))) =
     Inr (take 1 (map snd (resultsListRows sample_three)))"
proof -
  have n: "length (resultsListRows sample_three) = 3"
    using sample_three_rows by (metis Map_keys_def length_map length_Cons list.size(3) numeral_3_eq_3)
  show ?thesis
    using sample_malformed n
      malformed_sort_by_throws_on_two_rows
        [of "sample_three\<lparr>sortBy := Some \<lparr>ref = 1, column = Some ''fileName'', ascending = True\<rparr>\<rparr>"
          sample_host "map snd (resultsListRows sample_three)"]
      malformed_sort_by_throws_on_two_rows
        [of "sample_three\<lparr>sortBy := Some \<lparr>ref = 1, column = Some ''fileName'', ascending = True\<rparr>\<rparr>"
          sample_host "take 1 (map snd (resultsListRows sample_three))"]
      sample_three_malformed
    by simp
qed

subsection \<open>Groups\<close>

lemma Map_set_fresh: "k \<notin> fst ` set m \<Longrightarrow> Map_set k v m = m @ [(k, v)]"
  by (induction m) auto

lemma keys_pushRow: "map fst (pushRow key row gs) = map fst gs"
  by (induction gs) (auto simp: pushRow_def)

lemma in_pushRow:
  "(k, g') \<in> set (pushRow key row gs) \<longleftrightarrow>
   (\<exists>g. (k, g) \<in> set gs \<and> g' = (if k = key then g\<lparr>rows := rows g @ [row]\<rparr> else g))"
  unfolding pushRow_def by (force split: if_splits)

lemma groupsOf_empty: "groupsOf K V T [] []"
  by (simp add: groupsOf_def)

lemma groupsOf_nonempty:
  assumes "groupsOf K V T gs seen" "(k, g) \<in> set gs"
  shows "rows g \<noteq> []"
proof -
  from assms have "k \<in> K ` set seen"
    unfolding groupsOf_def by (metis fst_conv imageI)
  then obtain r where "r \<in> set seen" "K r = k" by auto
  then have "filter (\<lambda>r. K r = k) seen \<noteq> []" by (auto simp: filter_empty_conv)
  moreover from assms have "rows g = filter (\<lambda>r. K r = k) seen"
    unfolding groupsOf_def by auto
  ultimately show ?thesis by simp
qed

lemma groupsOf_push:
  assumes inv: "groupsOf K V T gs seen" and has: "K row \<in> fst ` set gs"
  shows "groupsOf K V T (pushRow (K row) row gs) (seen @ [row])"
  unfolding groupsOf_def
proof (intro conjI ballI)
  show "distinct (map fst (pushRow (K row) row gs))"
    using inv by (simp add: keys_pushRow groupsOf_def)
  have "fst ` set (pushRow (K row) row gs) = set (map fst (pushRow (K row) row gs))" by simp
  also have "\<dots> = fst ` set gs" by (simp add: keys_pushRow)
  finally show "fst ` set (pushRow (K row) row gs) = K ` set (seen @ [row])"
    using inv has by (auto simp: groupsOf_def)
next
  fix p assume p: "p \<in> set (pushRow (K row) row gs)"
  obtain k g' where kg: "p = (k, g')" by (cases p)
  with p obtain g where g: "(k, g) \<in> set gs"
      and g': "g' = (if k = K row then g\<lparr>rows := rows g @ [row]\<rparr> else g)"
    by (auto simp: in_pushRow)
  from inv g have old: "rows g = filter (\<lambda>r. K r = k) seen"
      "group_text g = V (hd (rows g))" "group_tooltip g = T (hd (rows g))"
    unfolding groupsOf_def by auto
  have ne: "rows g \<noteq> []" using inv g by (rule groupsOf_nonempty)
  show "case p of (k, g) \<Rightarrow> rows g = filter (\<lambda>r. K r = k) (seen @ [row]) \<and>
      group_text g = V (hd (rows g)) \<and> group_tooltip g = T (hd (rows g))"
    using old ne by (auto simp: kg g')
qed

lemma groupsOf_new:
  assumes inv: "groupsOf K V T gs seen" and fresh: "K row \<notin> fst ` set gs"
  shows "groupsOf K V T
     (Map_set (K row) \<lparr>rows = [row], group_text = V row, group_tooltip = T row\<rparr> gs) (seen @ [row])"
proof -
  have eq: "Map_set (K row) \<lparr>rows = [row], group_text = V row, group_tooltip = T row\<rparr> gs =
      gs @ [(K row, \<lparr>rows = [row], group_text = V row, group_tooltip = T row\<rparr>)]"
    using fresh by (rule Map_set_fresh)
  from inv fresh have "K row \<notin> K ` set seen"
    by (simp add: groupsOf_def)
  then have "\<forall>r\<in>set seen. K r \<noteq> K row"
    by (metis image_eqI)
  then have none: "filter (\<lambda>r. K r = K row) seen = []"
    by (simp add: filter_empty_conv)
  show ?thesis
    unfolding eq groupsOf_def
  proof (intro conjI ballI)
    show "distinct (map fst (gs @ [(K row, \<lparr>rows = [row], group_text = V row, group_tooltip = T row\<rparr>)]))"
      using inv fresh by (auto simp: groupsOf_def)
    show "fst ` set (gs @ [(K row, \<lparr>rows = [row], group_text = V row, group_tooltip = T row\<rparr>)]) =
        K ` set (seen @ [row])"
      using inv by (auto simp: groupsOf_def)
  next
    fix p assume p: "p \<in> set (gs @ [(K row, \<lparr>rows = [row], group_text = V row, group_tooltip = T row\<rparr>)])"
    obtain k g where kg: "p = (k, g)" by (cases p)
    show "case p of (k, g) \<Rightarrow> rows g = filter (\<lambda>r. K r = k) (seen @ [row]) \<and>
        group_text g = V (hd (rows g)) \<and> group_tooltip g = T (hd (rows g))"
    proof (cases "(k, g) \<in> set gs")
      case True
      then have "k \<noteq> K row" using fresh by force
      moreover from inv True have "rows g = filter (\<lambda>r. K r = k) seen"
          "group_text g = V (hd (rows g))" "group_tooltip g = T (hd (rows g))"
        unfolding groupsOf_def by auto
      ultimately show ?thesis by (auto simp: kg)
    next
      case False
      with p kg have "k = K row" "g = \<lparr>rows = [row], group_text = V row, group_tooltip = T row\<rparr>"
        by auto
      then show ?thesis using none by (simp add: kg)
    qed
  qed
qed

lemma groupRows_groupsOf:
  assumes f: "field_of group_by = Some f"
  shows "groupRows group_by store ids gs = Inr gs' \<Longrightarrow>
     groupsOf (groupKey group_by f) (field_value f) (field_tooltip f) gs seen \<Longrightarrow>
     \<exists>rs. map Some rs = map (Map_get store) ids \<and>
       groupsOf (groupKey group_by f) (field_value f) (field_tooltip f) gs' (seen @ rs)"
proof (induction ids arbitrary: gs seen)
  case Nil
  then show ?case by simp
next
  case (Cons i ids)
  from Cons.prems(1) obtain row where row: "Map_get store i = Some row"
    by (cases "Map_get store i") auto
  let ?K = "groupKey group_by f"
  let ?new = "\<lparr>rows = [row], group_text = field_value f row, group_tooltip = field_tooltip f row\<rparr>"
  let ?gs1 = "if Map_has gs (?K row) then pushRow (?K row) row gs else Map_set (?K row) ?new gs"
  have run: "groupRows group_by store ids ?gs1 = Inr gs'"
    using Cons.prems(1) by (simp add: row f Let_def split: if_splits)
  have inv1: "groupsOf ?K (field_value f) (field_tooltip f) ?gs1 (seen @ [row])"
    using Cons.prems(2) by (simp add: Map_has_def groupsOf_push groupsOf_new)
  from Cons.IH [OF run inv1] obtain rs where
    rs: "map Some rs = map (Map_get store) ids"
    and inv: "groupsOf ?K (field_value f) (field_tooltip f) gs' ((seen @ [row]) @ rs)"
    by blast
  have "map Some (row # rs) = map (Map_get store) (i # ids)" using rs row by simp
  moreover have "groupsOf ?K (field_value f) (field_tooltip f) gs' (seen @ row # rs)"
    using inv by simp
  ultimately show ?case by blast
qed

lemma map_filter_resolved: "map Some rs = map f ids \<Longrightarrow> List.map_filter f ids = rs"
proof (induction ids arbitrary: rs)
  case Nil
  then show ?case by (simp add: List.map_filter_simps)
next
  case (Cons i ids)
  then obtain r rs' where "rs = r # rs'" "f i = Some r" "map Some rs' = map f ids"
    by (cases rs) auto
  with Cons.IH show ?case by (simp add: List.map_filter_simps)
qed

subsection \<open>Sorting keeps the elements\<close>

lemma mset_insertSorted: "insertSorted cmp x ys = Inr zs \<Longrightarrow> mset zs = add_mset x (mset ys)"
proof (induction ys arbitrary: zs)
  case Nil
  then show ?case by auto
next
  case (Cons y ys)
  then show ?case
    by (auto split: sum.splits if_splits)
qed

lemma mset_ArraySort: "ArraySort cmp xs = Inr ys \<Longrightarrow> mset ys = mset xs"
proof (induction xs arbitrary: ys)
  case Nil
  then show ?case by simp
next
  case (Cons x xs)
  then show ?case
    by (auto split: sum.splits dest: mset_insertSorted)
qed

lemma sortGroupRows_rel:
  "sortGroupRows h sort_by gs = Inr gs' \<Longrightarrow>
   list_all2 (\<lambda>g g'. mset (rows g') = mset (rows g) \<and> group_text g' = group_text g \<and>
     group_tooltip g' = group_tooltip g) gs gs'"
proof (induction gs arbitrary: gs')
  case Nil
  then show ?case by simp
next
  case (Cons g gs)
  then show ?case
    by (auto split: sum.splits dest: mset_ArraySort)
qed

text \<open>Two comparison functions that answer the same on the elements sort them alike.\<close>

lemma insertSorted_cong:
  "(\<And>b. b \<in> set ys \<Longrightarrow> cmp x b = cmp' x b) \<Longrightarrow> insertSorted cmp x ys = insertSorted cmp' x ys"
  by (induction ys) (auto split: sum.splits)

lemma ArraySort_cong:
  assumes "\<And>a b. a \<in> set xs \<Longrightarrow> b \<in> set xs \<Longrightarrow> cmp a b = cmp' a b"
  shows "ArraySort cmp xs = ArraySort cmp' xs"
  using assms
proof (induction xs)
  case Nil
  show ?case by simp
next
  case (Cons x xs)
  have eq: "ArraySort cmp xs = ArraySort cmp' xs"
    by (rule Cons.IH) (simp add: Cons.prems)
  show ?case
  proof (cases "ArraySort cmp' xs")
    case (Inl e)
    with eq show ?thesis by simp
  next
    case (Inr ys)
    then have "set ys = set xs" by (metis mset_ArraySort set_mset_mset)
    then have "insertSorted cmp x ys = insertSorted cmp' x ys"
      by (intro insertSorted_cong) (simp add: Cons.prems)
    with eq Inr show ?thesis by simp
  qed
qed

lemma list_all2_right: "list_all2 R xs ys \<Longrightarrow> y \<in> set ys \<Longrightarrow> \<exists>x\<in>set xs. R x y"
  by (induction rule: list_all2_induct) auto

lemma list_all2_left: "list_all2 R xs ys \<Longrightarrow> x \<in> set xs \<Longrightarrow> \<exists>y\<in>set ys. R x y"
  by (induction rule: list_all2_induct) auto

lemma list_all2_map_eq: "list_all2 (\<lambda>x y. f y = f x) xs ys \<Longrightarrow> map f ys = map f xs"
  by (induction rule: list_all2_induct) auto

lemma find_hd_filter: "filter P xs \<noteq> [] \<Longrightarrow> find P xs = Some (hd (filter P xs))"
  by (induction xs) auto

lemma StrOpt_eq: "StrOpt a = StrOpt b \<longleftrightarrow> a = b"
  by (cases a; cases b) (simp_all add: StrOpt_def)

subsection \<open>The groups of a projection\<close>

lemma getResultData_groups:
  assumes d: "getResultData h c = Inr data" and f: "field_of (groupBy c) = Some f"
  shows "\<exists>gm gs.
     groupsOf (groupKey (groupBy c) f) (field_value f) (field_tooltip f) gm (listedRows c) \<and>
     length (listedRows c) = length (postFilterListRows c) \<and>
     mset gs = mset (map snd gm) \<and>
     list_all2 (\<lambda>g g'. mset (rows g') = mset (rows g) \<and> group_text g' = group_text g \<and>
       group_tooltip g' = group_tooltip g) gs (groups data) \<and>
     resultCount data = Map_size (resultsListRows c)"
proof -
  from d obtain gm where gm:
      "groupRows (groupBy c) (resultsListRows c) (postFilterListRows c) [] = Inr gm"
    by (auto simp: getResultData_def split: sum.splits)
  from d gm obtain gs where gs: "ArraySort compareGroups (map snd gm) = Inr gs"
    by (auto simp: getResultData_def split: sum.splits)
  from d gm gs obtain gs' where gs': "sortGroupRows h (sortBy c) gs = Inr gs'"
    by (auto simp: getResultData_def split: sum.splits)
  from d gm gs gs' have data: "groups data = gs'" "resultCount data = Map_size (resultsListRows c)"
    by (auto simp: getResultData_def)
  from groupRows_groupsOf [OF f gm groupsOf_empty] obtain rs where
    rs: "map Some rs = map (Map_get (resultsListRows c)) (postFilterListRows c)"
    and inv: "groupsOf (groupKey (groupBy c) f) (field_value f) (field_tooltip f) gm rs"
    by auto
  have l: "listedRows c = rs"
    unfolding listedRows_def using rs by (rule map_filter_resolved)
  have n: "length rs = length (postFilterListRows c)"
    using rs by (metis length_map)
  show ?thesis
    using inv l n mset_ArraySort [OF gs] sortGroupRows_rel [OF gs'] data by auto
qed

lemma groupsOf_by_tooltip:
  assumes inv: "groupsOf K V T gm L" and K: "\<And>r. K r = StrOpt (T r)" and g: "g \<in> set (map snd gm)"
  shows "rows g = filter (\<lambda>r. T r = group_tooltip g) L \<and> rows g \<noteq> [] \<and>
     group_text g = V (hd (rows g))"
proof -
  from g obtain k where kg: "(k, g) \<in> set gm" by auto
  with inv have rows: "rows g = filter (\<lambda>r. K r = k) L" and label: "group_text g = V (hd (rows g))"
    and tip: "group_tooltip g = T (hd (rows g))"
    unfolding groupsOf_def by auto
  have ne: "rows g \<noteq> []" using inv kg by (rule groupsOf_nonempty)
  then have "hd (rows g) \<in> set (filter (\<lambda>r. K r = k) L)" using rows by (metis hd_in_set)
  then have "K (hd (rows g)) = k" by simp
  then have k: "k = StrOpt (group_tooltip g)" using tip K by simp
  have "filter (\<lambda>r. K r = k) L = filter (\<lambda>r. T r = group_tooltip g) L"
    by (rule filter_cong) (simp_all add: k K StrOpt_eq)
  with rows label ne show ?thesis by simp
qed

lemma groupsOf_tooltips_distinct:
  assumes inv: "groupsOf K V T gm L" and K: "\<And>r. K r = StrOpt (T r)"
  shows "distinct (map group_tooltip (map snd gm))"
proof -
  have "\<forall>p\<in>set gm. fst p = StrOpt (group_tooltip (snd p))"
  proof
    fix p assume p: "p \<in> set gm"
    then have kg: "(fst p, snd p) \<in> set gm" by simp
    with inv have rows: "rows (snd p) = filter (\<lambda>r. K r = fst p) L"
      and tip: "group_tooltip (snd p) = T (hd (rows (snd p)))"
      unfolding groupsOf_def by auto
    have "rows (snd p) \<noteq> []" using inv kg by (rule groupsOf_nonempty)
    then have "hd (rows (snd p)) \<in> set (filter (\<lambda>r. K r = fst p) L)" using rows by (metis hd_in_set)
    then have "K (hd (rows (snd p))) = fst p" by simp
    then show "fst p = StrOpt (group_tooltip (snd p))" using tip K by simp
  qed
  then have "map fst gm = map StrOpt (map group_tooltip (map snd gm))"
    by (induction gm) auto
  moreover have "distinct (map fst gm)" using inv by (simp add: groupsOf_def)
  ultimately show ?thesis by (metis distinct_map)
qed

lemma file_groups_built:
  assumes g: "(groupBy c = ''resultFile'' \<and> file = resultFile) \<or>
      (groupBy c = ''sarifFile'' \<and> file = sarifFile)"
    and d: "getResultData h c = Inr data"
  shows "(\<forall>r\<in>set (listedRows c). \<exists>g\<in>set (groups data). r \<in> set (rows g)) \<and>
     (\<forall>g\<in>set (groups data). \<forall>r\<in>set (rows g).
        r \<in> set (listedRows c) \<and> tooltip (file r) = group_tooltip g) \<and>
     distinct (map group_tooltip (groups data)) \<and>
     (\<forall>g\<in>set (groups data). \<exists>r.
        find (\<lambda>r. tooltip (file r) = group_tooltip g) (listedRows c) = Some r \<and>
        group_text g = StrOpt (val (file r))) \<and>
     (\<forall>r1\<in>set (listedRows c). \<forall>r2\<in>set (listedRows c).
        val (file r1) = val (file r2) \<and> tooltip (file r1) \<noteq> tooltip (file r2) \<longrightarrow>
        (\<exists>g1\<in>set (groups data). \<exists>g2\<in>set (groups data).
           g1 \<noteq> g2 \<and> r1 \<in> set (rows g1) \<and> r2 \<in> set (rows g2)))"
proof -
  let ?L = "listedRows c"
  let ?T = "\<lambda>r. tooltip (file r)"
  let ?V = "\<lambda>r. StrOpt (val (file r))"
  let ?R = "\<lambda>g g'. mset (rows g') = mset (rows g) \<and> group_text g' = group_text g \<and>
       group_tooltip g' = group_tooltip g"
  from g have f: "field_of (groupBy c) = Some (F_text file)"
    by (auto simp: field_of_def)
  from g have K: "\<And>r. groupKey (groupBy c) (F_text file) r = StrOpt (?T r)"
    by (auto simp: groupKey_def)
  from getResultData_groups [OF d f] obtain gm gs where
    inv0: "groupsOf (groupKey (groupBy c) (F_text file)) (field_value (F_text file))
        (field_tooltip (F_text file)) gm ?L"
    and perm: "mset gs = mset (map snd gm)"
    and rel: "list_all2 ?R gs (groups data)"
    by blast
  have fv: "field_value (F_text file) = ?V" and ft: "field_tooltip (F_text file) = ?T"
    by (simp_all add: fun_eq_iff)
  from inv0 have inv: "groupsOf (groupKey (groupBy c) (F_text file)) ?V ?T gm ?L"
    by (simp only: fv ft)
  have sets: "set gs = set (map snd gm)"
    using perm by (metis set_mset_mset)
  have old: "rows g0 = filter (\<lambda>r. ?T r = group_tooltip g0) ?L \<and> rows g0 \<noteq> [] \<and>
      group_text g0 = ?V (hd (rows g0))" if "g0 \<in> set gs" for g0
    using groupsOf_by_tooltip [OF inv K] that sets by blast
  have origin: "\<exists>g0\<in>set gs. ?R g0 g'" if "g' \<in> set (groups data)" for g'
    using list_all2_right [OF rel that] .
  have 1: "\<forall>r\<in>set ?L. \<exists>g\<in>set (groups data). r \<in> set (rows g)"
  proof
    fix r assume r: "r \<in> set ?L"
    then have "groupKey (groupBy c) (F_text file) r \<in> fst ` set gm"
      using inv by (simp add: groupsOf_def)
    then obtain g0 where kg: "(groupKey (groupBy c) (F_text file) r, g0) \<in> set gm" by auto
    with inv have "rows g0 = filter (\<lambda>x. groupKey (groupBy c) (F_text file) x =
        groupKey (groupBy c) (F_text file) r) ?L"
      unfolding groupsOf_def by auto
    with r have in0: "r \<in> set (rows g0)" by simp
    from kg have "g0 \<in> set gs" using sets by force
    from list_all2_left [OF rel this] obtain g' where
      "g' \<in> set (groups data)" "mset (rows g') = mset (rows g0)" by blast
    with in0 show "\<exists>g\<in>set (groups data). r \<in> set (rows g)"
      by (metis set_mset_mset)
  qed
  have 2: "\<forall>g\<in>set (groups data). \<forall>r\<in>set (rows g). r \<in> set ?L \<and> ?T r = group_tooltip g"
  proof (intro ballI)
    fix g' r assume g': "g' \<in> set (groups data)" and r: "r \<in> set (rows g')"
    from origin [OF g'] obtain g0 where g0: "g0 \<in> set gs" and R: "?R g0 g'" by blast
    from R r have "r \<in> set (rows g0)" by (metis set_mset_mset)
    with old [OF g0] have "r \<in> set (filter (\<lambda>r. ?T r = group_tooltip g0) ?L)" by simp
    with R show "r \<in> set ?L \<and> ?T r = group_tooltip g'" by simp
  qed
  have 3: "distinct (map group_tooltip (groups data))"
  proof -
    have "distinct (map group_tooltip (map snd gm))"
      using inv K by (rule groupsOf_tooltips_distinct)
    moreover have "mset (map group_tooltip gs) = mset (map group_tooltip (map snd gm))"
      using perm by (metis mset_map)
    ultimately have "distinct (map group_tooltip gs)"
      by (metis mset_eq_imp_distinct_iff)
    moreover have "list_all2 (\<lambda>x y. group_tooltip y = group_tooltip x) gs (groups data)"
      using rel by (rule list_all2_mono) simp
    then have "map group_tooltip (groups data) = map group_tooltip gs"
      by (rule list_all2_map_eq)
    ultimately show ?thesis by simp
  qed
  have 4: "\<forall>g\<in>set (groups data). \<exists>r.
        find (\<lambda>r. ?T r = group_tooltip g) ?L = Some r \<and> group_text g = ?V r"
  proof
    fix g' assume g': "g' \<in> set (groups data)"
    from origin [OF g'] obtain g0 where g0: "g0 \<in> set gs" and R: "?R g0 g'" by blast
    from old [OF g0] have rows: "rows g0 = filter (\<lambda>r. ?T r = group_tooltip g0) ?L"
      and ne: "rows g0 \<noteq> []" and label: "group_text g0 = ?V (hd (rows g0))" by auto
    from ne rows have "find (\<lambda>r. ?T r = group_tooltip g0) ?L = Some (hd (rows g0))"
      by (metis find_hd_filter)
    with R label show "\<exists>r. find (\<lambda>r. ?T r = group_tooltip g') ?L = Some r \<and> group_text g' = ?V r"
      by simp
  qed
  have 5: "\<forall>r1\<in>set ?L. \<forall>r2\<in>set ?L.
        val (file r1) = val (file r2) \<and> ?T r1 \<noteq> ?T r2 \<longrightarrow>
        (\<exists>g1\<in>set (groups data). \<exists>g2\<in>set (groups data).
           g1 \<noteq> g2 \<and> r1 \<in> set (rows g1) \<and> r2 \<in> set (rows g2))"
  proof (intro ballI impI)
    fix r1 r2 assume r1: "r1 \<in> set ?L" and r2: "r2 \<in> set ?L"
      and ne: "val (file r1) = val (file r2) \<and> ?T r1 \<noteq> ?T r2"
    from 1 r1 obtain g1 where g1: "g1 \<in> set (groups data)" "r1 \<in> set (rows g1)" by blast
    from 1 r2 obtain g2 where g2: "g2 \<in> set (groups data)" "r2 \<in> set (rows g2)" by blast
    from 2 g1 have "?T r1 = group_tooltip g1" by blast
    moreover from 2 g2 have "?T r2 = group_tooltip g2" by blast
    ultimately have "g1 \<noteq> g2" using ne by auto
    with g1 g2 show "\<exists>g1\<in>set (groups data). \<exists>g2\<in>set (groups data).
           g1 \<noteq> g2 \<and> r1 \<in> set (rows g1) \<and> r2 \<in> set (rows g2)" by blast
  qed
  from 1 2 3 4 5 show ?thesis by blast
qed

subsection \<open>A projection is built\<close>

lemma insertSorted_succeeds:
  assumes "\<And>a b. \<exists>n. cmp a b = Inr n"
  shows "\<exists>zs. insertSorted cmp x ys = Inr zs"
proof (induction ys)
  case Nil
  show ?case by simp
next
  case (Cons y ys)
  from assms obtain n where n: "cmp x y = Inr n" by blast
  from Cons obtain zs where "insertSorted cmp x ys = Inr zs" ..
  with n show ?case by simp
qed

lemma ArraySort_succeeds:
  assumes "\<And>a b. \<exists>n. cmp a b = Inr n"
  shows "\<exists>ys. ArraySort cmp xs = Inr ys"
proof (induction xs)
  case Nil
  show ?case by simp
next
  case (Cons x xs)
  then obtain ys where ys: "ArraySort cmp xs = Inr ys" ..
  from insertSorted_succeeds [of cmp x ys] assms obtain zs where "insertSorted cmp x ys = Inr zs"
    by blast
  with ys show ?case by simp
qed

lemma compareRows_succeeds:
  "\<not> malformedSortBy sort_by \<Longrightarrow> \<exists>n. compareRows h sort_by a b = Inr n"
  by (cases sort_by) (auto simp: malformedSortBy_def compareRows_def)

lemma sortGroupRows_succeeds:
  assumes "\<not> malformedSortBy sort_by"
  shows "\<exists>gs'. sortGroupRows h sort_by gs = Inr gs'"
proof (induction gs)
  case Nil
  show ?case by simp
next
  case (Cons g gs)
  then obtain gs' where gs': "sortGroupRows h sort_by gs = Inr gs'" ..
  have "\<exists>rs. ArraySort (compareRows h sort_by) (rows g) = Inr rs"
    by (rule ArraySort_succeeds) (rule compareRows_succeeds [OF assms])
  then obtain rs where "ArraySort (compareRows h sort_by) (rows g) = Inr rs" ..
  with gs' show ?case by simp
qed

lemma groupRows_succeeds:
  assumes f: "field_of group_by = Some f"
  shows "set ids \<subseteq> fst ` set store \<Longrightarrow> \<exists>gm. groupRows group_by store ids gs = Inr gm"
proof (induction ids arbitrary: gs)
  case Nil
  show ?case by simp
next
  case (Cons i ids)
  from Cons.prems have "i \<in> fst ` set store" by simp
  then have "map_of store i \<noteq> None" by (simp add: map_of_eq_None_iff)
  then obtain row where row: "Map_get store i = Some row"
    by (auto simp: Map_get_def)
  from Cons.prems have rest: "set ids \<subseteq> fst ` set store" by simp
  show ?case
    using Cons.IH [OF rest] by (simp add: row f Let_def)
qed

lemma getResultData_succeeds:
  assumes f: "field_of (groupBy c) = Some f"
    and s: "\<not> malformedSortBy (sortBy c)"
    and l: "set (postFilterListRows c) \<subseteq> set (Map_keys (resultsListRows c))"
  shows "\<exists>data. getResultData h c = Inr data"
proof -
  from l have "set (postFilterListRows c) \<subseteq> fst ` set (resultsListRows c)"
    by (simp add: Map_keys_def)
  from groupRows_succeeds [OF f this] obtain gm where
    gm: "groupRows (groupBy c) (resultsListRows c) (postFilterListRows c) [] = Inr gm" ..
  have "\<exists>gs. ArraySort compareGroups (map snd gm) = Inr gs"
    by (rule ArraySort_succeeds) (simp add: compareGroups_def)
  then obtain gs where gs: "ArraySort compareGroups (map snd gm) = Inr gs" ..
  from sortGroupRows_succeeds [OF s] obtain gs' where
    gs': "sortGroupRows h (sortBy c) gs = Inr gs'" ..
  show ?thesis
    by (simp add: getResultData_def gm gs gs')
qed

text \<open>
  C7. Let the rows be grouped by \<^verbatim>\<open>resultFile\<close> or by \<^verbatim>\<open>sarifFile\<close>, the sort
  setting name a property of a row, and the row store hold every key of the list of the
  rows that pass the filter. Then the projection is built, and the key of a group is the
  tooltip of that cell, the full path: every listed row stands in a group, the rows of a
  group all have the tooltip of the group, and no two groups have the same tooltip, so
  two listed rows with the same short name and different full paths stand in two
  different groups. The label of a group is the display value, the short name, of the
  first listed row that has the group's full path.
\<close>

theorem file_groups_keyed_by_full_path:
  assumes g: "(groupBy c = ''resultFile'' \<and> file = resultFile) \<or>
      (groupBy c = ''sarifFile'' \<and> file = sarifFile)"
    and s: "\<not> malformedSortBy (sortBy c)"
    and l: "set (postFilterListRows c) \<subseteq> set (Map_keys (resultsListRows c))"
  shows "\<exists>data. getResultData h c = Inr data \<and>
     (\<forall>r\<in>set (listedRows c). \<exists>g\<in>set (groups data). r \<in> set (rows g)) \<and>
     (\<forall>g\<in>set (groups data). \<forall>r\<in>set (rows g).
        r \<in> set (listedRows c) \<and> tooltip (file r) = group_tooltip g) \<and>
     distinct (map group_tooltip (groups data)) \<and>
     (\<forall>g\<in>set (groups data). \<exists>r.
        find (\<lambda>r. tooltip (file r) = group_tooltip g) (listedRows c) = Some r \<and>
        group_text g = StrOpt (val (file r))) \<and>
     (\<forall>r1\<in>set (listedRows c). \<forall>r2\<in>set (listedRows c).
        val (file r1) = val (file r2) \<and> tooltip (file r1) \<noteq> tooltip (file r2) \<longrightarrow>
        (\<exists>g1\<in>set (groups data). \<exists>g2\<in>set (groups data).
           g1 \<noteq> g2 \<and> r1 \<in> set (rows g1) \<and> r2 \<in> set (rows g2)))"
proof -
  from g have f: "field_of (groupBy c) = Some (F_text file)"
    by (auto simp: field_of_def)
  from getResultData_succeeds [OF f s l] obtain data where d: "getResultData h c = Inr data" ..
  from file_groups_built [OF g d] d show ?thesis by blast
qed

lemma sample_data_built: "getResultData sample_host sample_three = Inr sample_data"
  unfolding sample_data_def by code_simp

lemma sample_three_well_formed:
  "groupBy sample_three = ''resultFile'' \<and> \<not> malformedSortBy (sortBy sample_three) \<and>
   set (postFilterListRows sample_three) \<subseteq> set (Map_keys (resultsListRows sample_three))"
  by code_simp

lemma sample_data_groups:
  "map (\<lambda>r. (resultId r, val (resultFile r), tooltip (resultFile r))) (listedRows sample_three) =
     [(1, Some ''a.c'', Some ''/x/a.c''), (2, Some ''a.c'', Some ''/x/a.c''),
      (3, Some ''a.c'', Some ''/y/a.c'')] \<and>
   map (\<lambda>g. (group_text g, group_tooltip g, sort (map resultId (rows g)))) (groups sample_data) =
     [(Str ''a.c'', Some ''/x/a.c'', [1, 2]), (Str ''a.c'', Some ''/y/a.c'', [3])]"
  unfolding sample_data_def by code_simp

theorem file_groups_keyed_by_full_path_witness:
  "groupBy sample_three = ''resultFile'' \<and> \<not> malformedSortBy (sortBy sample_three) \<and>
   set (postFilterListRows sample_three) \<subseteq> set (Map_keys (resultsListRows sample_three)) \<and>
   getResultData sample_host sample_three = Inr sample_data \<and>
   map (\<lambda>r. (resultId r, val (resultFile r), tooltip (resultFile r))) (listedRows sample_three) =
     [(1, Some ''a.c'', Some ''/x/a.c''), (2, Some ''a.c'', Some ''/x/a.c''),
      (3, Some ''a.c'', Some ''/y/a.c'')] \<and>
   map (\<lambda>g. (group_text g, group_tooltip g, sort (map resultId (rows g)))) (groups sample_data) =
     [(Str ''a.c'', Some ''/x/a.c'', [1, 2]), (Str ''a.c'', Some ''/y/a.c'', [3])] \<and>
   distinct (map group_tooltip (groups sample_data))"
proof -
  from file_groups_keyed_by_full_path [of sample_three resultFile sample_host]
    sample_three_well_formed
  obtain data where "getResultData sample_host sample_three = Inr data"
    and "distinct (map group_tooltip (groups data))"
    by blast
  with sample_data_built have "distinct (map group_tooltip (groups sample_data))" by simp
  with sample_data_built sample_three_well_formed sample_data_groups show ?thesis by simp
qed

subsection \<open>The counts of a projection\<close>

lemma sum_list_indicator:
  "distinct ks \<Longrightarrow> (\<Sum>k\<leftarrow>ks. if y = k then 1 else 0) = (if y \<in> set ks then 1 else (0::nat))"
  by (induction ks) auto

lemma sum_list_filter_by_key:
  "distinct ks \<Longrightarrow> K ` set L \<subseteq> set ks \<Longrightarrow>
   (\<Sum>k\<leftarrow>ks. length (filter (\<lambda>r. K r = k) L)) = length L"
proof (induction L)
  case Nil
  then show ?case by simp
next
  case (Cons x L)
  have "(\<Sum>k\<leftarrow>ks. length (filter (\<lambda>r. K r = k) (x # L))) =
      (\<Sum>k\<leftarrow>ks. (if K x = k then 1 else 0) + length (filter (\<lambda>r. K r = k) L))"
    by (rule arg_cong [where f = sum_list], rule map_cong) auto
  also have "\<dots> = (\<Sum>k\<leftarrow>ks. if K x = k then 1 else 0) + (\<Sum>k\<leftarrow>ks. length (filter (\<lambda>r. K r = k) L))"
    by (rule sum_list_addf)
  also have "\<dots> = 1 + length L"
    using Cons by (simp add: sum_list_indicator)
  finally show ?case by simp
qed

lemma groupsOf_total:
  assumes "groupsOf K V T gm L"
  shows "(\<Sum>g\<leftarrow>map snd gm. length (rows g)) = length L"
proof -
  have "map (\<lambda>g. length (rows g)) (map snd gm) =
      map (\<lambda>k. length (filter (\<lambda>r. K r = k) L)) (map fst gm)"
    using assms by (auto simp: groupsOf_def)
  then have "(\<Sum>g\<leftarrow>map snd gm. length (rows g)) =
      (\<Sum>k\<leftarrow>map fst gm. length (filter (\<lambda>r. K r = k) L))"
    by (rule arg_cong)
  also have "\<dots> = length L"
  proof (rule sum_list_filter_by_key)
    show "distinct (map fst gm)" using assms by (simp add: groupsOf_def)
    show "K ` set L \<subseteq> set (map fst gm)" using assms by (simp add: groupsOf_def)
  qed
  finally show ?thesis .
qed

lemma sum_list_mset_cong:
  fixes f :: "'a \<Rightarrow> nat"
  shows "mset xs = mset ys \<Longrightarrow> sum_list (map f xs) = sum_list (map f ys)"
  by (metis mset_map sum_mset_sum_list)

lemma sum_list_rel:
  "list_all2 (\<lambda>g g'. mset (rows g') = mset (rows g) \<and> P g g') gs gs' \<Longrightarrow>
   (\<Sum>g\<leftarrow>gs'. length (rows g)) = (\<Sum>g\<leftarrow>gs. length (rows g))"
  by (induction rule: list_all2_induct) (auto dest: mset_eq_length)

lemma groupRows_no_field:
  "field_of group_by = None \<Longrightarrow> groupRows group_by store ids gs = Inr gs' \<Longrightarrow> ids = [] \<and> gs' = gs"
  by (cases ids) (auto split: option.splits)

text \<open>
  What does hold of the counts of C4: \<open>resultCount\<close> is the size of the row store, and
  the groups hold as many rows as the list of the rows that pass the filter has keys.
\<close>

lemma projection_counts:
  assumes d: "getResultData h c = Inr data"
  shows "resultCount data = Map_size (resultsListRows c) \<and>
     (\<Sum>g\<leftarrow>groups data. length (rows g)) = length (postFilterListRows c)"
proof (cases "field_of (groupBy c)")
  case None
  from d obtain gm where gm:
      "groupRows (groupBy c) (resultsListRows c) (postFilterListRows c) [] = Inr gm"
    by (auto simp: getResultData_def split: sum.splits)
  from groupRows_no_field [OF None gm] have e: "postFilterListRows c = []" "gm = []" by auto
  with d gm show ?thesis
    by (auto simp: getResultData_def)
next
  case (Some f)
  from getResultData_groups [OF d Some] obtain gm gs where
    inv: "groupsOf (groupKey (groupBy c) f) (field_value f) (field_tooltip f) gm (listedRows c)"
    and n: "length (listedRows c) = length (postFilterListRows c)"
    and perm: "mset gs = mset (map snd gm)"
    and rel: "list_all2 (\<lambda>g g'. mset (rows g') = mset (rows g) \<and> (group_text g' = group_text g \<and>
       group_tooltip g' = group_tooltip g)) gs (groups data)"
    and count: "resultCount data = Map_size (resultsListRows c)"
    by blast
  have "(\<Sum>g\<leftarrow>groups data. length (rows g)) = (\<Sum>g\<leftarrow>gs. length (rows g))"
    using rel by (rule sum_list_rel)
  also have "\<dots> = (\<Sum>g\<leftarrow>map snd gm. length (rows g))"
    using perm by (rule sum_list_mset_cong)
  also have "\<dots> = length (listedRows c)"
    using inv by (rule groupsOf_total)
  finally show ?thesis using n count by simp
qed

end
